theory Spec2Isabelle
  imports Main "HOL-Library.Word"
begin

section \<open>Machine integers of the loader\<close>

text \<open>
  The hyperparameters of \<^verbatim>\<open>bloom_hparams\<close> are \<^verbatim>\<open>int32_t\<close>. They are modelled as
  \<open>int\<close> with the two's complement wrap-around written out: \<open>wrap32\<close> is the value an
  \<^verbatim>\<open>int\<close> holds after an operation whose mathematical result is its argument. (C++ leaves
  signed overflow undefined; the wrap-around is what the two's complement machine computes.)
  \<open>cdiv\<close> is the division of C++, which truncates towards zero.
\<close>

definition wrap32 :: "int \<Rightarrow> int" where
  "wrap32 x = (x + 2147483648) mod 4294967296 - 2147483648"

definition cdiv :: "int \<Rightarrow> int \<Rightarrow> int" where
  "cdiv a b = sgn a * sgn b * (\<bar>a\<bar> div \<bar>b\<bar>)"

text \<open>The mathematical result of an operation on \<^verbatim>\<open>int\<close> is a value of \<^verbatim>\<open>int\<close>.\<close>

definition fits32 :: "int \<Rightarrow> bool" where
  "fits32 x = (- 2147483648 \<le> x \<and> x < 2147483648)"

text \<open>
  Line 122 of \<^verbatim>\<open>bloom_model_load\<close>:
  \<^verbatim>\<open>n_ff = ((4*hparams.n_embd + hparams.n_mult - 1)/hparams.n_mult)*hparams.n_mult;\<close>
  Every operation is on \<^verbatim>\<open>int\<close>. A division by zero traps: the model has no value then.
\<close>

definition n_ff_of :: "int \<Rightarrow> int \<Rightarrow> int option" where
  "n_ff_of embd mult =
     (if mult = 0 then None
      else Some (wrap32 (wrap32 (cdiv (wrap32 (wrap32 (wrap32 (4 * embd) + mult) - 1)) mult)
                         * mult)))"

section \<open>Outcomes\<close>

text \<open>
  A call of the program either returns a value or does not return: a hardware trap
  (integer division by zero), an uncaught exception, or an operation for which C++ defines
  no behaviour (a read before the start of a buffer, \<^verbatim>\<open>back()\<close> of an empty vector). The
  model stops at such a point with \<open>Traps\<close>; nothing is claimed about what follows.
\<close>

datatype 'r outcome = Returns 'r | Traps

section \<open>The checkpoint file\<close>

type_synonym byte = "8 word"

text \<open>
  \<^verbatim>\<open>std::ifstream\<close>: the bytes of the file, the read position and the two state bits
  the loader depends on. \<open>fin_read fin n old\<close> is \<^verbatim>\<open>fin.read(buf, n)\<close> for a buffer that
  holds \<open>old\<close> (\<open>n\<close> bytes) before the call: when the stream is not good nothing is
  stored; when the file ends early the bytes that were there are stored and both bits are
  set.
\<close>

record ifstream =
  bytes :: "byte list"
  pos :: nat
  failbit :: bool
  eofbit :: bool

definition fin_open :: "byte list \<Rightarrow> ifstream" where
  "fin_open bs = \<lparr>bytes = bs, pos = 0, failbit = False, eofbit = False\<rparr>"

definition fin_read :: "ifstream \<Rightarrow> nat \<Rightarrow> byte list \<Rightarrow> ifstream \<times> byte list" where
  "fin_read fin n old =
     (if failbit fin \<or> eofbit fin then (fin\<lparr>failbit := True\<rparr>, old)
      else let got = take n (drop (pos fin) (bytes fin)) in
        if length got = n then (fin\<lparr>pos := pos fin + n\<rparr>, got)
        else (fin\<lparr>pos := length (bytes fin), failbit := True, eofbit := True\<rparr>,
              got @ drop (length got) old))"

text \<open>Little-endian 32-bit values, unsigned and signed, and their bytes.\<close>

definition le32 :: "byte list \<Rightarrow> nat" where
  "le32 bs = foldr (\<lambda>b acc. unat b + 256 * acc) bs 0"

definition dec_i32 :: "byte list \<Rightarrow> int" where
  "dec_i32 bs = wrap32 (int (le32 bs))"

definition enc_i32 :: "int \<Rightarrow> byte list" where
  "enc_i32 x = map (\<lambda>i. word_of_int (x div 256 ^ i)) [0, 1, 2, 3]"

definition read_i32 :: "ifstream \<Rightarrow> int \<Rightarrow> ifstream \<times> int" where
  "read_i32 fin old = (let (fin', bs) = fin_read fin 4 (enc_i32 old) in (fin', dec_i32 bs))"

definition magic_constant :: nat where
  "magic_constant = 0x67676d6c"

section \<open>Hyperparameters, vocabulary and model\<close>

record bloom_hparams =
  n_vocab :: int
  n_ctx :: int
  n_embd :: int
  n_mult :: int
  n_head :: int
  n_layer :: int
  f16 :: int

definition default_hparams :: bloom_hparams where
  "default_hparams = \<lparr>n_vocab = 32000, n_ctx = 512, n_embd = 4096, n_mult = 256,
                       n_head = 32, n_layer = 32, f16 = 1\<rparr>"

text \<open>
  \<^verbatim>\<open>gpt_vocab\<close> is declared in \<^verbatim>\<open>utils.h\<close>; its four members are modelled from the
  way \<^verbatim>\<open>bloom_model_load\<close> uses them. \<open>id_to_token\<close> is an association list kept sorted
  by key, because the loader iterates over it in key order.
\<close>

record gpt_vocab =
  token_to_id :: "string \<Rightarrow> int option"
  id_to_token :: "(int \<times> string) list"
  words :: "byte \<Rightarrow> string list"
  space_words :: "byte \<Rightarrow> string list"

definition empty_vocab :: gpt_vocab where
  "empty_vocab = \<lparr>token_to_id = (\<lambda>_. None), id_to_token = [],
                    words = (\<lambda>_. []), space_words = (\<lambda>_. [])\<rparr>"

fun map_set :: "int \<Rightarrow> string \<Rightarrow> (int \<times> string) list \<Rightarrow> (int \<times> string) list" where
  "map_set k v [] = [(k, v)]"
| "map_set k v ((k', v') # xs) =
     (if k < k' then (k, v) # (k', v') # xs
      else if k = k' then (k, v) # xs
      else (k', v') # map_set k v xs)"

definition chars_of :: "byte list \<Rightarrow> string" where
  "chars_of bs = map (\<lambda>b. char_of (unat b)) bs"

definition bytes_of :: "string \<Rightarrow> byte list" where
  "bytes_of w = map (\<lambda>c. of_nat (of_char c)) w"

text \<open>
  The parameter set. The weight tensors are read only; they are part of the numeric kernels
  below. What the model keeps is what the program changes: the hyperparameters, whether the
  arena \<^verbatim>\<open>model.ctx\<close> exists (and its size), and the two cache tensors
  \<^verbatim>\<open>memory_k\<close> and \<^verbatim>\<open>memory_v\<close> as flat arrays of floats. The type \<open>'f\<close> stands
  for \<^verbatim>\<open>float\<close>.
\<close>

record 'f bloom_model =
  hparams :: bloom_hparams
  arena :: "nat option"
  memory_k :: "'f list"
  memory_v :: "'f list"

definition fresh_model :: "'f bloom_model" where
  "fresh_model = \<lparr>hparams = default_hparams, arena = None, memory_k = [], memory_v = []\<rparr>"

section \<open>The checkpoint loader\<close>

text \<open>
  What \<^verbatim>\<open>bloom_model_load\<close> takes from outside the source file:
  \<^item> \<open>garbage\<close>: the four bytes an uninitialised \<^verbatim>\<open>uint32_t\<close> local holds
    (\<^verbatim>\<open>magic\<close>, \<^verbatim>\<open>len\<close>) when a read stores nothing into it;
  \<^item> \<open>ctx_size_of\<close>: the arena size of lines 197 to 239, a sum of products with
    \<^verbatim>\<open>ggml_type_sizef\<close> (floating point, declared in \<^verbatim>\<open>ggml.h\<close>);
  \<^item> \<open>ggml_init\<close>: whether the tensor library creates an arena of that size;
  \<^item> \<open>arena_fill\<close>: the content of freshly allocated tensor memory;
  \<^item> \<open>stream_weights\<close>: lines 340 to 546, which reopen the file at the offset the
    header ended at and copy the tensor records into the weight tensors, checking names,
    shapes and sizes with the tensor library's functions; its value is the value the loader
    returns.
\<close>

record 'f load_env =
  garbage :: "byte list"
  ctx_size_of :: "bloom_hparams \<Rightarrow> int \<Rightarrow> nat"
  ggml_init :: "nat \<Rightarrow> bool"
  arena_fill :: 'f
  stream_weights :: "bloom_hparams \<Rightarrow> byte list \<Rightarrow> int \<Rightarrow> bool"

text \<open>The trace of the loader: every read of the header stream and every arena request.\<close>

datatype load_event = FinRead nat | GgmlInit nat | StreamWeights int

text \<open>Lines 112 to 120: six fields in file order, then the caller's context length.\<close>

definition load_hparams :: "ifstream \<Rightarrow> bloom_hparams \<Rightarrow> int \<Rightarrow> ifstream \<times> bloom_hparams" where
  "load_hparams fin hp ctx_len =
     (let (fin1, v) = read_i32 fin (n_vocab hp);
          (fin2, e) = read_i32 fin1 (n_embd hp);
          (fin3, m) = read_i32 fin2 (n_mult hp);
          (fin4, h) = read_i32 fin3 (n_head hp);
          (fin5, l) = read_i32 fin4 (n_layer hp);
          (fin6, f) = read_i32 fin5 (f16 hp)
      in (fin6, hp\<lparr>n_vocab := v, n_embd := e, n_mult := m, n_head := h, n_layer := l,
                    f16 := f, n_ctx := ctx_len\<rparr>))"

text \<open>
  Lines 148 to 161, one iteration: the length, \<^verbatim>\<open>word.resize(len)\<close> (which keeps a
  prefix of the previous word and pads with zero bytes), the bytes, the two map updates.
\<close>

definition resize_word :: "nat \<Rightarrow> string \<Rightarrow> string" where
  "resize_word len w = take len w @ replicate (len - length w) (CHR 0x00)"

definition load_vocab_step ::
  "byte list \<Rightarrow> nat \<Rightarrow> ifstream \<times> string \<times> gpt_vocab \<times> load_event list
     \<Rightarrow> ifstream \<times> string \<times> gpt_vocab \<times> load_event list" where
  "load_vocab_step g i st =
     (let (fin, word, vocab, ev) = st;
          (fin1, lenb) = fin_read fin 4 g;
          len = le32 lenb;
          word1 = resize_word len word;
          (fin2, wb) = fin_read fin1 len (bytes_of word1);
          word2 = chars_of wb
      in (fin2, word2,
          vocab\<lparr>token_to_id := (token_to_id vocab)(word2 \<mapsto> int i),
                id_to_token := map_set (int i) word2 (id_to_token vocab)\<rparr>,
          ev @ [FinRead 4, FinRead len]))"

text \<open>Lines 163 to 174: the index of the tokens by their leading byte.\<close>

definition index_word :: "string \<Rightarrow> gpt_vocab \<Rightarrow> gpt_vocab" where
  "index_word w vocab =
     (if length w > 0 then
        (if w ! 0 = CHR '' '' then
           (if length w > 1
            then vocab\<lparr>space_words := (space_words vocab)
                   (of_nat (of_char (w ! 1)) := space_words vocab (of_nat (of_char (w ! 1))) @ [w])\<rparr>
            else vocab)
         else vocab\<lparr>words := (words vocab)
                   (of_nat (of_char (w ! 0)) := words vocab (of_nat (of_char (w ! 0))) @ [w])\<rparr>)
      else vocab)"

definition index_vocab :: "gpt_vocab \<Rightarrow> gpt_vocab" where
  "index_vocab vocab = fold (\<lambda>kv. index_word (snd kv)) (id_to_token vocab) vocab"

text \<open>
  Lines 322 to 338: the number of elements of each cache tensor, computed in \<^verbatim>\<open>int\<close>.
\<close>

definition n_elements_of :: "bloom_hparams \<Rightarrow> int" where
  "n_elements_of hp = wrap32 (n_embd hp * wrap32 (n_layer hp * n_ctx hp))"

text \<open>
  \<^verbatim>\<open>bloom_model_load\<close>. The file is \<open>None\<close> when it cannot be opened. The result is the
  returned flag, the model and the vocabulary as the call leaves them, and the trace.
  Line 264, \<^verbatim>\<open>model.layers.resize(n_layer)\<close>, throws for a negative \<^verbatim>\<open>n_layer\<close>, after
  the arena has been created; nothing catches the exception.
\<close>

definition bloom_model_load ::
  "'f load_env \<Rightarrow> byte list option \<Rightarrow> 'f bloom_model \<Rightarrow> gpt_vocab \<Rightarrow> int
     \<Rightarrow> (bool \<times> 'f bloom_model \<times> gpt_vocab \<times> load_event list) outcome" where
  "bloom_model_load env file model vocab ctx_len =
     (case file of
        None \<Rightarrow> Returns (False, model, vocab, [])
      | Some bs \<Rightarrow>
          let (fin1, mb) = fin_read (fin_open bs) 4 (garbage env) in
          if le32 mb \<noteq> magic_constant then Returns (False, model, vocab, [FinRead 4])
          else
            let (fin2, hp) = load_hparams fin1 (hparams model) ctx_len;
                model1 = model\<lparr>hparams := hp\<rparr>;
                ev1 = [FinRead 4] @ replicate 6 (FinRead 4)
            in case n_ff_of (n_embd hp) (n_mult hp) of
                 None \<Rightarrow> Traps
               | Some n_ff \<Rightarrow>
                   let (fin3, word, vocab1, ev2) =
                         fold (load_vocab_step (garbage env)) [0..<nat (n_vocab hp)]
                              (fin2, [], vocab, ev1);
                       vocab2 = index_vocab vocab1
                   in if f16 hp \<notin> {0, 1, 2, 3} then Returns (False, model1, vocab2, ev2)
                      else
                        let ctx_size = ctx_size_of env hp n_ff;
                            ev3 = ev2 @ [GgmlInit ctx_size]
                        in if \<not> ggml_init env ctx_size then Returns (False, model1, vocab2, ev3)
                           else if n_layer hp < 0 then Traps
                           else
                             let n_el = nat (n_elements_of hp);
                                 model2 = model1\<lparr>arena := Some ctx_size,
                                                  memory_k := replicate n_el (arena_fill env),
                                                  memory_v := replicate n_el (arena_fill env)\<rparr>;
                                 file_offset = (if failbit fin3 then - 1 else int (pos fin3))
                             in Returns (stream_weights env hp bs file_offset, model2, vocab2,
                                         ev3 @ [StreamWeights file_offset]))"

section \<open>The forward pass\<close>

text \<open>
  \<^verbatim>\<open>bloom_eval\<close> builds a graph of tensor operations and has the tensor library run it. The
  arithmetic of the operations is outside the source file; what the source fixes is which
  tensors are computed from which, which slices of the two cache tensors are written and
  read, and which part of the result is returned. A tensor's data is a function from the
  index of a \<^verbatim>\<open>float\<close> in its buffer to the value there. The numeric kernels are:
  \<^item> \<open>tok_embed\<close>: lines 604 to 614, the rows of the embedding table for the input
    tokens, normalised;
  \<^item> \<open>qkv\<close>: lines 622 to 639 of layer \<open>il\<close>, the fused projection \<^verbatim>\<open>cur\<close>, with
    \<open>3 * n_embd\<close> floats for each of the \<open>N\<close> input positions;
  \<^item> \<open>attn_ffn\<close>: lines 658 to 752 of layer \<open>il\<close>, from the layer's input, \<^verbatim>\<open>cur\<close>
    (for the queries) and the views of the two cache tensors that cover the positions
    below \<open>n_past + N\<close> of the layer, to the input of the next layer;
  \<^item> \<open>lm_head\<close>: lines 755 to 770, the final norm and the output projection, with
    \<open>n_vocab\<close> floats for each input position.
  The tensor library is taken to have the scratch memory the graph needs. The remaining
  fields are the allocator and the size computations in floating point:
  \<open>realloc_ok n\<close> says whether \<^verbatim>\<open>realloc\<close> to \<open>n\<close> bytes succeeds, \<open>grown n\<close> is
  \<^verbatim>\<open>1.1*n\<close> as a \<^verbatim>\<open>size_t\<close>, and \<open>used_mem N\<close> is \<^verbatim>\<open>ggml_used_mem(ctx0)\<close> after a
  graph for \<open>N\<close> tokens.
\<close>

record 'f eval_env =
  tok_embed :: "int list \<Rightarrow> nat \<Rightarrow> 'f"
  qkv :: "nat \<Rightarrow> (nat \<Rightarrow> 'f) \<Rightarrow> nat \<Rightarrow> nat \<Rightarrow> 'f"
  attn_ffn :: "nat \<Rightarrow> nat \<Rightarrow> nat \<Rightarrow> (nat \<Rightarrow> 'f) \<Rightarrow> (nat \<Rightarrow> 'f) \<Rightarrow> 'f list \<Rightarrow> 'f list \<Rightarrow> nat \<Rightarrow> 'f"
  lm_head :: "nat \<Rightarrow> (nat \<Rightarrow> 'f) \<Rightarrow> nat \<Rightarrow> 'f"
  realloc_ok :: "nat \<Rightarrow> bool"
  grown :: "nat \<Rightarrow> nat"
  used_mem :: "nat \<Rightarrow> nat"

text \<open>
  The state a forward pass changes: the model (its cache tensors), and the function's
  static \<^verbatim>\<open>buf_size\<close>, which lives as long as the process.
\<close>

type_synonym 'f world = "'f bloom_model \<times> nat"

definition initial_buf_size :: nat where
  "initial_buf_size = 512 * 10000 * 10000"

text \<open>
  Lines 645 to 647: \<^verbatim>\<open>ggml_view_2d(ctx0, cur, n_embd, N, cur->nb[1], part*sizeof(float)*n_embd)\<close>
  is the part \<open>0\<close>, \<open>1\<close> or \<open>2\<close> (query, key, value) of every row of \<^verbatim>\<open>cur\<close>, whose
  rows are \<open>3 * n_embd\<close> floats apart. Element \<open>j\<close> of the view, in the order in which
  \<^verbatim>\<open>ggml_cpy\<close> copies it to a contiguous tensor, is column \<open>j mod n_embd\<close> of row
  \<open>j div n_embd\<close>.
\<close>

definition view_2d :: "(nat \<Rightarrow> 'f) \<Rightarrow> nat \<Rightarrow> nat \<Rightarrow> nat \<Rightarrow> 'f" where
  "view_2d cur E part j = cur ((j div E) * (3 * E) + part * E + j mod E)"

text \<open>
  \<^verbatim>\<open>ggml_view_1d(ctx0, mem, n, off)\<close> read, and \<^verbatim>\<open>ggml_cpy(src, ggml_view_1d(ctx0, mem, n, off))\<close>,
  with \<open>off\<close> counted in floats, for a view that lies inside the tensor.
\<close>

definition view_1d :: "'f list \<Rightarrow> nat \<Rightarrow> nat \<Rightarrow> 'f list" where
  "view_1d mem n off = take n (drop off mem)"

definition cpy_to_view :: "(nat \<Rightarrow> 'f) \<Rightarrow> 'f list \<Rightarrow> nat \<Rightarrow> nat \<Rightarrow> 'f list" where
  "cpy_to_view src mem n off =
     map (\<lambda>i. if off \<le> i \<and> i < off + n then src (i - off) else mem ! i) [0..<length mem]"

text \<open>
  A view of \<open>cnt\<close> floats at float offset \<open>off\<close> lies inside the tensor. The views
  are made without a bounds check; their offsets and sizes are computed from the
  hyperparameters as integers.
\<close>

definition view_ok :: "int \<Rightarrow> int \<Rightarrow> 'f list \<Rightarrow> bool" where
  "view_ok off cnt mem = (0 \<le> off \<and> 0 \<le> cnt \<and> off + cnt \<le> int (length mem))"

text \<open>
  One iteration of the loop over the layers (lines 616 to 753). Lines 651 and 652 make the
  views of \<open>N * n_embd\<close> floats at offset \<open>n_embd * (il * n_ctx + n_past)\<close> that the keys
  and values of this call are copied to (when \<open>N \<ge> 1\<close>); lines 668 and 697 make the views
  of \<open>(n_past + N) * n_embd\<close> floats at offset \<open>il * n_ctx * n_embd\<close> that the attention
  reads. The factors \<open>il * n_ctx + n_past\<close>, \<open>N * n_embd\<close>, \<open>il * n_ctx\<close> and
  \<open>(n_past + N) * n_embd\<close> are computed in \<^verbatim>\<open>int\<close>. Where one of them leaves the range of
  \<^verbatim>\<open>int\<close>, or a view does not lie inside its tensor (the copy or the read then leaves the
  tensor's buffer), the model stops.
\<close>

definition eval_layer ::
  "'f eval_env \<Rightarrow> bloom_hparams \<Rightarrow> nat \<Rightarrow> nat \<Rightarrow> nat
     \<Rightarrow> (nat \<Rightarrow> 'f) \<times> 'f list \<times> 'f list \<Rightarrow> ((nat \<Rightarrow> 'f) \<times> 'f list \<times> 'f list) outcome" where
  "eval_layer env hp n_past N il s =
     (let (inpL, mk, mv) = s;
          cur = qkv env il inpL N;
          off = n_embd hp * (int il * n_ctx hp + int n_past);
          cnt = int N * n_embd hp;
          roff = int il * n_ctx hp * n_embd hp;
          rcnt = (int n_past + int N) * n_embd hp;
          wfits = (fits32 (int il * n_ctx hp) \<and> fits32 (int il * n_ctx hp + int n_past) \<and>
                   fits32 cnt);
          rfits = (fits32 (int il * n_ctx hp) \<and> fits32 (int n_past + int N) \<and> fits32 rcnt)
      in if N \<ge> 1 \<and> \<not> (wfits \<and> view_ok off cnt mk \<and> view_ok off cnt mv) then Traps
         else
           let mk' = (if N \<ge> 1 then cpy_to_view (view_2d cur (nat (n_embd hp)) 1) mk (nat cnt) (nat off)
                      else mk);
               mv' = (if N \<ge> 1 then cpy_to_view (view_2d cur (nat (n_embd hp)) 2) mv (nat cnt) (nat off)
                      else mv)
           in if \<not> (rfits \<and> view_ok roff rcnt mk' \<and> view_ok roff rcnt mv') then Traps
              else Returns (attn_ffn env il n_past N inpL cur
                              (view_1d mk' (nat rcnt) (nat roff)) (view_1d mv' (nat rcnt) (nat roff)),
                            mk', mv'))"

text \<open>The layers \<open>0\<close> to \<open>k - 1\<close>, in this order.\<close>

fun eval_layers ::
  "'f eval_env \<Rightarrow> bloom_hparams \<Rightarrow> nat \<Rightarrow> nat \<Rightarrow> nat
     \<Rightarrow> (nat \<Rightarrow> 'f) \<times> 'f list \<times> 'f list \<Rightarrow> ((nat \<Rightarrow> 'f) \<times> 'f list \<times> 'f list) outcome" where
  "eval_layers env hp n_past N 0 s = Returns s"
| "eval_layers env hp n_past N (Suc k) s =
     (case eval_layers env hp n_past N k s of
        Traps \<Rightarrow> Traps
      | Returns s' \<Rightarrow> eval_layer env hp n_past N k s')"

text \<open>
  The result of \<^verbatim>\<open>bloom_eval\<close>: \<^verbatim>\<open>false\<close>, or \<^verbatim>\<open>true\<close> with the logits \<^verbatim>\<open>embd_w\<close> and
  the value of \<^verbatim>\<open>mem_per_token\<close>, both passed by reference; in either case the state.
\<close>

datatype 'f eval_result = EvalFalse "'f world" | EvalTrue "'f list" nat "'f world"

text \<open>
  \<^verbatim>\<open>bloom_eval\<close>. The call does not return when \<^verbatim>\<open>n_head\<close> is zero (line 577 divides by
  it) or the quotient of line 577 is not an \<^verbatim>\<open>int\<close>, when \<^verbatim>\<open>n_vocab\<close> is negative
  (\<^verbatim>\<open>embd_w.resize\<close> throws), when the input is empty and either \<^verbatim>\<open>mem_per_token\<close> is
  zero (line 792 divides by \<open>N\<close>) or the vocabulary is not empty (line 789 copies from
  \<open>n_vocab\<close> floats before the result), or when the offset \<^verbatim>\<open>n_vocab*(N-1)\<close> of line
  789, a product of two \<^verbatim>\<open>int\<close>, leaves the range of \<^verbatim>\<open>int\<close> (the copy then starts
  outside the result).
\<close>

definition bloom_eval ::
  "'f eval_env \<Rightarrow> 'f world \<Rightarrow> nat \<Rightarrow> int list \<Rightarrow> nat \<Rightarrow> 'f eval_result outcome" where
  "bloom_eval env w n_past embd_inp mem_per_token =
     (let (m, buf_size) = w;
          N = length embd_inp;
          hp = hparams m;
          V = nat (n_vocab hp);
          need = (mem_per_token * N) mod 2 ^ 64;
          resize = (mem_per_token > 0 \<and> need > buf_size);
          buf_size1 = (if resize then grown env need else buf_size)
      in if n_head hp = 0 \<or> (n_embd hp = - 2147483648 \<and> n_head hp = - 1) then Traps
         else if resize \<and> \<not> realloc_ok env (grown env need) then Returns (EvalFalse (m, buf_size1))
         else
           case eval_layers env hp n_past N (nat (n_layer hp))
                  (tok_embed env embd_inp, memory_k m, memory_v m) of
             Traps \<Rightarrow> Traps
           | Returns (inpL, mk, mv) \<Rightarrow>
               if n_vocab hp < 0 \<or> (N = 0 \<and> (mem_per_token = 0 \<or> V > 0))
                  \<or> \<not> fits32 (n_vocab hp * (int N - 1)) then Traps
               else
                 let out = lm_head env N inpL;
                     embd_w = map (\<lambda>j. out (V * (N - 1) + j)) [0..<V];
                     mpt = (if mem_per_token = 0 then used_mem env N div N else mem_per_token)
                 in Returns (EvalTrue embd_w mpt (m\<lparr>memory_k := mk, memory_v := mv\<rparr>, buf_size1)))"

section \<open>Addressing the cache\<close>

text \<open>
  The cache tensors hold, for every layer, \<open>n_ctx\<close> positions of \<open>n_embd\<close> floats.
  \<open>cell hp il q c\<close> is the index of float \<open>c\<close> of position \<open>q\<close> in the region of layer
  \<open>il\<close>. A model is well formed when its cache tensors have the number of elements the
  loader computes from the hyperparameters.
\<close>

definition cell :: "bloom_hparams \<Rightarrow> nat \<Rightarrow> nat \<Rightarrow> nat \<Rightarrow> nat" where
  "cell hp il q c = nat (n_embd hp) * (il * nat (n_ctx hp) + q) + c"

definition cache_wf :: "'f bloom_model \<Rightarrow> bool" where
  "cache_wf m =
     (int (length (memory_k m)) = n_embd (hparams m) * n_layer (hparams m) * n_ctx (hparams m) \<and>
      int (length (memory_v m)) = n_embd (hparams m) * n_layer (hparams m) * n_ctx (hparams m))"

text \<open>
  The float \<open>c\<close> of the key (\<open>part = 1\<close>) or value (\<open>part = 2\<close>) that layer \<open>il\<close>
  computes for input token \<open>t\<close> of a forward pass over \<open>embd_inp\<close> at position \<open>n_past\<close>:
  the slice of \<^verbatim>\<open>cur\<close> that lines 646 and 647 name \<^verbatim>\<open>Kcur\<close> and \<^verbatim>\<open>Vcur\<close>. It is
  \<open>None\<close> when the pass does not reach layer \<open>il\<close>.
\<close>

definition kv_at ::
  "'f eval_env \<Rightarrow> 'f bloom_model \<Rightarrow> nat \<Rightarrow> int list \<Rightarrow> nat \<Rightarrow> nat \<Rightarrow> nat \<Rightarrow> nat \<Rightarrow> 'f option" where
  "kv_at env m n_past embd_inp part il t c =
     (case eval_layers env (hparams m) n_past (length embd_inp) il
             (tok_embed env embd_inp, memory_k m, memory_v m) of
        Traps \<Rightarrow> None
      | Returns (inpL, mk, mv) \<Rightarrow>
          Some (view_2d (qkv env il inpL (length embd_inp)) (nat (n_embd (hparams m))) part
                  (t * nat (n_embd (hparams m)) + c)))"

section \<open>Sessions and generation\<close>

text \<open>
  \<^verbatim>\<open>gpt_params\<close> is declared in \<^verbatim>\<open>utils.h\<close>; these are the members the source file
  uses. The three sampling parameters in floating point are only handed to the sampler.
\<close>

record 'f gpt_params =
  seed :: int
  n_threads :: int
  n_predict :: int
  repeat_last_n :: int
  top_k :: int
  top_p :: 'f
  temp :: 'f
  repeat_penalty :: 'f
  n_batch :: int
  prompt :: string

text \<open>
  What the generation code takes from \<^verbatim>\<open>utils.h\<close>, the C++ library and the machine:
  \<^item> \<open>default_params\<close>: a default-constructed \<^verbatim>\<open>gpt_params\<close>;
  \<^item> \<open>bloom_tokenize\<close>: \<^verbatim>\<open>::bloom_tokenize(vocab, text, false)\<close>;
  \<^item> \<open>bloom_sample_top_p\<close>: the sampler, from the vocabulary, the logits its pointer
    argument points to, the recent tokens, the sampling parameters and the state of the
    generator, to the token and the next state of the generator;
  \<^item> \<open>mt19937\<close>: the state of \<^verbatim>\<open>std::mt19937 rng(seed)\<close>;
  \<^item> \<open>beyond\<close>: \<^verbatim>\<open>std::vector::operator[]\<close> checks no bounds; \<open>beyond k\<close> is the value
    the machine reads at index \<open>k\<close> of \<^verbatim>\<open>embd_inp\<close> when \<open>k\<close> is not below its size.
\<close>

record ('f, 'g) gen_env =
  default_params :: "'f gpt_params"
  bloom_tokenize :: "gpt_vocab \<Rightarrow> string \<Rightarrow> int list"
  bloom_sample_top_p :: "gpt_vocab \<Rightarrow> 'f list \<Rightarrow> int list \<Rightarrow> 'f gpt_params \<Rightarrow> 'g \<Rightarrow> int \<times> 'g"
  mt19937 :: "int \<Rightarrow> 'g"
  beyond :: "nat \<Rightarrow> int"

text \<open>
  The trace of a generation call: each call of the tokenizer with its text; each call of
  \<^verbatim>\<open>bloom_eval\<close> with the cache position and the batch, where \<open>Eval\<close> is a call
  from the loop that feeds the prompt (line 876 of \<^verbatim>\<open>inference\<close>, line 1001 of
  \<^verbatim>\<open>chat\<close>, the warm-up of \<^verbatim>\<open>bloom_load\<close>) and \<open>EvalNext\<close> the call of line 1051
  of \<^verbatim>\<open>chat\<close> on a sampled token; and each index at which \<^verbatim>\<open>chat\<close> reads
  \<^verbatim>\<open>embd_inp\<close> to refill the recent tokens.
\<close>

datatype gen_event = Tokenize string | Eval nat "int list" | EvalNext nat "int list" | InpRead nat



fun inp_reads :: "gen_event list \<Rightarrow> nat list" where
  "inp_reads [] = []"
| "inp_reads (InpRead k # es) = k # inp_reads es"
| "inp_reads (e # es) = inp_reads es"

text \<open>
  The locals of \<^verbatim>\<open>inference\<close> and \<^verbatim>\<open>chat\<close> that their loops change. \<^verbatim>\<open>dst\<close> is
  modelled by the calls of \<^verbatim>\<open>strcpy\<close> on it: the offset from the caller's pointer and
  the C string copied there; \<open>s_cursor\<close> is the offset \<^verbatim>\<open>dst\<close> has reached.
\<close>

record ('f, 'g) gen_state =
  s_rng :: 'g
  s_n_past :: nat
  s_logits :: "'f list"
  s_embd :: "int list"
  s_last_n_tokens :: "int list"
  s_i :: nat
  s_mem_per_token :: nat
  s_world :: "'f world"
  s_dst :: "(nat \<times> string) list"
  s_cursor :: nat
  s_n_chars :: nat
  s_trace :: "gen_event list"

text \<open>One pass through a loop body: go on, leave the function with a value, or stop.\<close>

datatype ('r, 's) step = Next 's | Done 'r 's | Trap

definition c_str :: "string \<Rightarrow> string" where
  "c_str w = takeWhile (\<lambda>c. c \<noteq> CHR 0x00) w"

text \<open>
  \<^verbatim>\<open>last_n_tokens.erase(last_n_tokens.begin()); last_n_tokens.push_back(t);\<close> There is
  no behaviour defined for erasing from an empty vector.
\<close>

definition shift_in :: "int \<Rightarrow> int list \<Rightarrow> int list option" where
  "shift_in t xs = (case xs of [] \<Rightarrow> None | _ # ys \<Rightarrow> Some (ys @ [t]))"

text \<open>
  The sampler is called with \<^verbatim>\<open>logits.data() + (logits.size() - n_vocab)\<close>: the last
  \<^verbatim>\<open>n_vocab\<close> logits. When there are fewer, the pointer is before the buffer.
\<close>

definition sample_next ::
  "('f, 'g) gen_env \<Rightarrow> gpt_vocab \<Rightarrow> bloom_hparams \<Rightarrow> 'f gpt_params \<Rightarrow> 'f list \<Rightarrow> int list \<Rightarrow> 'g
     \<Rightarrow> (int \<times> 'g) option" where
  "sample_next env v hp params lg recent g =
     (if n_vocab hp < 0 \<or> nat (n_vocab hp) > length lg then None
      else Some (bloom_sample_top_p env v (drop (length lg - nat (n_vocab hp)) lg) recent params g))"

subsection \<open>One-shot generation\<close>

text \<open>
  Lines 915 to 922: the prompt tokens from index \<open>i\<close> on are appended to \<^verbatim>\<open>embd\<close> until
  the prompt ends or \<^verbatim>\<open>embd.size() > params.n_batch\<close> holds after an append. The
  comparison is made in \<^verbatim>\<open>size_t\<close>; \<open>nb\<close> is \<^verbatim>\<open>n_batch\<close> converted to it.
\<close>

fun fill_batch :: "nat \<Rightarrow> int list \<Rightarrow> int list \<Rightarrow> int list \<Rightarrow> (int list \<times> int list) option" where
  "fill_batch nb [] embd recent = Some (embd, recent)"
| "fill_batch nb (t # ts) embd recent =
     (case shift_in t recent of
        None \<Rightarrow> None
      | Some recent' \<Rightarrow>
          if length (embd @ [t]) > nb then Some (embd @ [t], recent')
          else fill_batch nb ts (embd @ [t]) recent')"

text \<open>
  Lines 927 to 932: each token of \<^verbatim>\<open>embd\<close> is looked up with
  \<^verbatim>\<open>vocab.id_to_token.find(id)->second\<close> and its text is copied to \<^verbatim>\<open>dst\<close>, which
  advances by the length of the C string.
\<close>

fun display_text :: "gpt_vocab \<Rightarrow> int list \<Rightarrow> (nat \<times> string) list \<times> nat \<Rightarrow> ((nat \<times> string) list \<times> nat) option" where
  "display_text v [] d = Some d"
| "display_text v (t # ts) d =
     (case map_of (id_to_token v) t of
        None \<Rightarrow> None
      | Some word \<Rightarrow> display_text v ts (fst d @ [(snd d, c_str word)], snd d + length (c_str word)))"

text \<open>
  The body of the loop of \<^verbatim>\<open>inference\<close> in three parts. Lines 873 to 882: the pending
  tokens, if any, are evaluated.
\<close>

definition inference_predict ::
  "'f eval_env \<Rightarrow> ('f, 'g) gen_state \<Rightarrow> (int, ('f, 'g) gen_state) step" where
  "inference_predict eenv s =
     (if s_embd s \<noteq> []
      then (case bloom_eval eenv (s_world s) (s_n_past s) (s_embd s) (s_mem_per_token s) of
              Traps \<Rightarrow> Trap
            | Returns (EvalFalse w) \<Rightarrow>
                Done 1 (s\<lparr>s_world := w, s_trace := s_trace s @ [Eval (s_n_past s) (s_embd s)]\<rparr>)
            | Returns (EvalTrue lg mpt w) \<Rightarrow>
                Next (s\<lparr>s_logits := lg, s_mem_per_token := mpt, s_world := w,
                         s_trace := s_trace s @ [Eval (s_n_past s) (s_embd s)]\<rparr>))
      else Next s)"

text \<open>
  Lines 887 to 924: past the prompt a token is sampled and becomes the pending token;
  inside the prompt the next batch of prompt tokens becomes pending, and \<^verbatim>\<open>i\<close> advances
  by \<^verbatim>\<open>embd.size() - 1\<close>.
\<close>

definition inference_feed ::
  "('f, 'g) gen_env \<Rightarrow> gpt_vocab \<Rightarrow> 'f gpt_params \<Rightarrow> int list
     \<Rightarrow> ('f, 'g) gen_state \<Rightarrow> ('f, 'g) gen_state option" where
  "inference_feed env v params embd_inp s =
     (if s_i s \<ge> length embd_inp
      then (case sample_next env v (hparams (fst (s_world s))) params (s_logits s)
                   (s_last_n_tokens s) (s_rng s) of
              None \<Rightarrow> None
            | Some (tok, g) \<Rightarrow>
                (case shift_in tok (s_last_n_tokens s) of
                   None \<Rightarrow> None
                 | Some recent \<Rightarrow>
                     Some (s\<lparr>s_rng := g, s_last_n_tokens := recent, s_embd := [tok]\<rparr>)))
      else (case fill_batch (nat (n_batch params mod 2 ^ 64)) (drop (s_i s) embd_inp) []
                   (s_last_n_tokens s) of
              None \<Rightarrow> None
            | Some (embd, recent) \<Rightarrow>
                Some (s\<lparr>s_embd := embd, s_last_n_tokens := recent,
                         s_i := s_i s + length embd - 1\<rparr>)))"

text \<open>Lines 927 to 939: the pending tokens are copied to \<^verbatim>\<open>dst\<close>; token 2 ends the text.\<close>

definition inference_display ::
  "gpt_vocab \<Rightarrow> ('f, 'g) gen_state \<Rightarrow> (int, ('f, 'g) gen_state) step" where
  "inference_display v s =
     (case display_text v (s_embd s) (s_dst s, s_cursor s) of
        None \<Rightarrow> Trap
      | Some (d, c) \<Rightarrow>
          if last (s_embd s) = 2 then Done 0 (s\<lparr>s_dst := d, s_cursor := c\<rparr>)
          else Next (s\<lparr>s_dst := d, s_cursor := c\<rparr>))"

definition inference_body ::
  "'f eval_env \<Rightarrow> ('f, 'g) gen_env \<Rightarrow> gpt_vocab \<Rightarrow> 'f gpt_params \<Rightarrow> int list
     \<Rightarrow> ('f, 'g) gen_state \<Rightarrow> (int, ('f, 'g) gen_state) step" where
  "inference_body eenv env v params embd_inp s =
     (case inference_predict eenv s of
        Trap \<Rightarrow> Trap
      | Done r s' \<Rightarrow> Done r s'
      | Next s1 \<Rightarrow>
          (case inference_feed env v params embd_inp
                  (s1\<lparr>s_n_past := s_n_past s1 + length (s_embd s1), s_embd := []\<rparr>) of
             None \<Rightarrow> Trap
           | Some s3 \<Rightarrow> inference_display v s3))"

lemma fill_batch_length_le:
  "fill_batch nb ts embd recent = Some (embd', recent') \<Longrightarrow> length embd \<le> length embd'"
proof (induction ts arbitrary: embd recent)
  case Nil
  then show ?case by simp
next
  case (Cons t ts)
  from Cons.prems obtain r where r: "shift_in t recent = Some r"
    by (cases "shift_in t recent") simp_all
  show ?case
  proof (cases "length (embd @ [t]) > nb")
    case True
    with Cons.prems r have "embd' = embd @ [t]" by simp
    then show ?thesis by simp
  next
    case False
    with Cons.prems r have "fill_batch nb ts (embd @ [t]) r = Some (embd', recent')" by simp
    from Cons.IH [OF this] show ?thesis by simp
  qed
qed

lemma fill_batch_length:
  assumes "fill_batch nb (t # ts) embd recent = Some (embd', recent')"
  shows "length embd < length embd'"
proof -
  from assms obtain r where r: "shift_in t recent = Some r"
    by (cases "shift_in t recent") simp_all
  show ?thesis
  proof (cases "length (embd @ [t]) > nb")
    case True
    with assms r have "embd' = embd @ [t]" by simp
    then show ?thesis by simp
  next
    case False
    with assms r have "fill_batch nb ts (embd @ [t]) r = Some (embd', recent')" by simp
    from fill_batch_length_le [OF this] show ?thesis by simp
  qed
qed

lemma inference_predict_i: "inference_predict eenv s = Next s' \<Longrightarrow> s_i s' = s_i s"
  by (auto simp: inference_predict_def split: if_splits outcome.splits eval_result.splits)

lemma inference_feed_i:
  assumes "inference_feed env v params embd_inp s = Some s'"
  shows "s_i s \<le> s_i s'"
proof (cases "s_i s \<ge> length embd_inp")
  case True
  with assms show ?thesis
    by (auto simp: inference_feed_def split: option.splits prod.splits)
next
  case False
  then obtain embd recent where
    f: "fill_batch (nat (n_batch params mod 2 ^ 64)) (drop (s_i s) embd_inp) [] (s_last_n_tokens s)
          = Some (embd, recent)"
    and s': "s_i s' = s_i s + length embd - 1"
    using assms by (auto simp: inference_feed_def split: option.splits prod.splits)
  obtain t ts where eq: "drop (s_i s) embd_inp = t # ts"
    using False by (cases "drop (s_i s) embd_inp") simp_all
  have "length ([]::int list) < length embd"
    using f unfolding eq by (rule fill_batch_length)
  then have "1 \<le> length embd" by (cases embd) simp_all
  with s' show ?thesis by linarith
qed

lemma inference_display_i: "inference_display v s = Next s' \<Longrightarrow> s_i s' = s_i s"
  by (auto simp: inference_display_def split: if_splits option.splits prod.splits)

lemma inference_body_i:
  assumes "inference_body eenv env v params embd_inp s = Next s'"
  shows "s_i s \<le> s_i s'"
proof -
  obtain s1 s3 where
    a: "inference_predict eenv s = Next s1" and
    b: "inference_feed env v params embd_inp
          (s1\<lparr>s_n_past := s_n_past s1 + length (s_embd s1), s_embd := []\<rparr>) = Some s3" and
    c: "inference_display v s3 = Next s'"
    using assms by (auto simp: inference_body_def split: step.splits option.splits)
  show ?thesis
    using inference_predict_i [OF a] inference_feed_i [OF b] inference_display_i [OF c] by simp
qed

text \<open>
  The loop of \<^verbatim>\<open>inference\<close>, line 871: \<^verbatim>\<open>i < embd_inp.size() + params.n_predict\<close> is a
  comparison in \<^verbatim>\<open>size_t\<close>, and \<open>bound\<close> is its right-hand side. \<^verbatim>\<open>i\<close> is an
  \<^verbatim>\<open>int\<close>: the model stops where \<^verbatim>\<open>i++\<close> would leave the range of \<^verbatim>\<open>int\<close>.
\<close>

function inference_loop ::
  "'f eval_env \<Rightarrow> ('f, 'g) gen_env \<Rightarrow> gpt_vocab \<Rightarrow> 'f gpt_params \<Rightarrow> int list \<Rightarrow> nat
     \<Rightarrow> ('f, 'g) gen_state \<Rightarrow> (int \<times> ('f, 'g) gen_state) outcome" where
  "inference_loop eenv env v params embd_inp bound s =
     (if s_i s < bound then
        (case inference_body eenv env v params embd_inp s of
           Trap \<Rightarrow> Traps
         | Done r s' \<Rightarrow> Returns (r, s')
         | Next s' \<Rightarrow>
             if s_i s' + 1 < 2147483648
             then inference_loop eenv env v params embd_inp bound (s'\<lparr>s_i := s_i s' + 1\<rparr>)
             else Traps)
      else Returns (0, s))"
  by pat_completeness auto
termination
proof (relation "measure (\<lambda>(eenv, env, v, params, embd_inp, bound, s). bound - s_i s)")
  show "wf (measure (\<lambda>(eenv, env, v, params, embd_inp, bound, s). bound - s_i s))"
    by simp
next
  fix eenv :: "'f eval_env" and env :: "('f, 'g) gen_env" and v params embd_inp bound
    and s s' :: "('f, 'g) gen_state"
  assume "s_i s < bound" and "inference_body eenv env v params embd_inp s = Next s'"
  then show "((eenv, env, v, params, embd_inp, bound, s'\<lparr>s_i := s_i s' + 1\<rparr>),
              (eenv, env, v, params, embd_inp, bound, s))
             \<in> measure (\<lambda>(eenv, env, v, params, embd_inp, bound, s). bound - s_i s)"
    using inference_body_i [of eenv env v params embd_inp s s'] by simp
qed

text \<open>
  \<^verbatim>\<open>inference\<close>. Line 859 looks every prompt token up with \<^verbatim>\<open>at\<close>, which throws for a
  token that is not in the vocabulary; line 868 makes a vector of \<^verbatim>\<open>repeat_last_n\<close>
  zeros, which throws for a negative number. The result is the returned value, the state
  the forward passes leave, the copies to \<^verbatim>\<open>dst\<close>, and the trace.
\<close>

definition inference ::
  "'f eval_env \<Rightarrow> ('f, 'g) gen_env \<Rightarrow> 'f gpt_params \<Rightarrow> 'f world \<Rightarrow> gpt_vocab \<Rightarrow> nat
     \<Rightarrow> (int \<times> 'f world \<times> (nat \<times> string) list \<times> gen_event list) outcome" where
  "inference eenv env params w v mem_per_token =
     (let g = mt19937 env (seed params);
          embd_inp = bloom_tokenize env v (prompt params);
          params' = params\<lparr>n_predict := min (n_predict params)
                       (wrap32 (n_ctx (hparams (fst w)) - wrap32 (int (length embd_inp))))\<rparr>
      in if list_ex (\<lambda>t. map_of (id_to_token v) t = None) embd_inp \<or> repeat_last_n params < 0
         then Traps
         else
           case inference_loop eenv env v params' embd_inp
                  (nat ((int (length embd_inp) + n_predict params') mod 2 ^ 64))
                  \<lparr>s_rng = g, s_n_past = 0, s_logits = [], s_embd = [],
                   s_last_n_tokens = replicate (nat (repeat_last_n params)) 0, s_i = 0,
                   s_mem_per_token = mem_per_token, s_world = w, s_dst = [], s_cursor = 0,
                   s_n_chars = 0, s_trace = [Tokenize (prompt params)]\<rparr> of
             Traps \<Rightarrow> Traps
           | Returns (r, s) \<Rightarrow> Returns (r, s_world s, s_dst s, s_trace s))"

text \<open>
  \<^verbatim>\<open>struct ChatContext\<close>, and the object \<^verbatim>\<open>new ChatContext{}\<close> makes.
\<close>

record 'f ChatContext =
  model :: "'f bloom_model"
  vocab :: gpt_vocab
  mem_per_token :: nat
  n_chars :: nat
  n_past :: nat
  last_n_tokens :: "int list"

definition new_ChatContext :: "'f ChatContext" where
  "new_ChatContext = \<lparr>model = fresh_model, vocab = empty_vocab, mem_per_token = 0, n_chars = 0,
                        n_past = 0, last_n_tokens = []\<rparr>"

text \<open>
  Lines 1090 to 1095, the same in \<^verbatim>\<open>bloom_run\<close> and \<^verbatim>\<open>bloom_chat\<close> but for the prompt.
  \<open>clock\<close> is the value of \<^verbatim>\<open>time(NULL)\<close>, which is stored in an \<^verbatim>\<open>int32_t\<close>. The
  condition of line 1091 reads the member \<^verbatim>\<open>params.seed\<close> of the default-constructed
  \<^verbatim>\<open>params\<close>, not the argument.
\<close>

definition entry_params ::
  "('f, 'g) gen_env \<Rightarrow> int \<Rightarrow> int \<Rightarrow> int \<Rightarrow> int \<Rightarrow> int \<Rightarrow> string \<Rightarrow> 'f gpt_params" where
  "entry_params env clock seed_arg n_threads_arg n_batch_arg n_predict_arg text =
     (default_params env)
       \<lparr>seed := (if seed (default_params env) < 0 then wrap32 clock else seed_arg),
        n_threads := (if n_threads_arg > 0 then n_threads_arg else n_threads (default_params env)),
        n_predict := n_predict_arg,
        n_batch := n_batch_arg,
        prompt := text\<rparr>"

text \<open>
  \<^verbatim>\<open>bloom_run\<close>. Besides the session it takes the static \<^verbatim>\<open>buf_size\<close> of
  \<^verbatim>\<open>bloom_eval\<close> and the clock; it gives back the returned value, the session (whose cache
  the forward passes have written), the static, the copies to \<^verbatim>\<open>dst\<close>, and the trace.
\<close>

definition bloom_run ::
  "'f eval_env \<Rightarrow> ('f, 'g) gen_env \<Rightarrow> 'f ChatContext \<Rightarrow> nat \<Rightarrow> int
     \<Rightarrow> int \<Rightarrow> int \<Rightarrow> int \<Rightarrow> int \<Rightarrow> string
     \<Rightarrow> (int \<times> 'f ChatContext \<times> nat \<times> (nat \<times> string) list \<times> gen_event list) outcome" where
  "bloom_run eenv env ctx buf_size clock seed_arg n_threads_arg n_batch_arg n_predict_arg text =
     (case inference eenv env
             (entry_params env clock seed_arg n_threads_arg n_batch_arg n_predict_arg text)
             (model ctx, buf_size) (vocab ctx) (mem_per_token ctx) of
        Traps \<Rightarrow> Traps
      | Returns (r, (m, b), d, tr) \<Rightarrow> Returns (r, ctx\<lparr>model := m\<rparr>, b, d, tr))"

subsection \<open>Multi-turn generation\<close>

text \<open>
  Lines 1008 to 1011, after \<^verbatim>\<open>n_past += n\<close>: for every \<open>i < n\<close> the oldest recent token
  is dropped and \<^verbatim>\<open>embd_inp[n_past + i]\<close> is appended.
\<close>

definition read_inp :: "('f, 'g) gen_env \<Rightarrow> int list \<Rightarrow> nat \<Rightarrow> int" where
  "read_inp env embd_inp k = (if k < length embd_inp then embd_inp ! k else beyond env k)"

definition refill :: "('f, 'g) gen_env \<Rightarrow> int list \<Rightarrow> nat \<Rightarrow> nat \<Rightarrow> int list \<Rightarrow> int list option" where
  "refill env embd_inp np n recent =
     fold (\<lambda>i r. case r of None \<Rightarrow> None | Some xs \<Rightarrow> shift_in (read_inp env embd_inp (np + i)) xs)
          [0..<n] (Some recent)"

text \<open>
  The body of the first loop of \<^verbatim>\<open>chat\<close>, lines 998 to 1011. \<open>nb\<close> is
  \<^verbatim>\<open>(size_t)params.n_batch\<close>, \<open>n_past_init\<close> the cache position at the start of the call,
  \<open>n_input\<close> the position at which the input ends.
\<close>

definition chat_ingest_step ::
  "'f eval_env \<Rightarrow> ('f, 'g) gen_env \<Rightarrow> nat \<Rightarrow> int list \<Rightarrow> nat \<Rightarrow> nat
     \<Rightarrow> ('f, 'g) gen_state \<Rightarrow> (int, ('f, 'g) gen_state) step" where
  "chat_ingest_step eenv env nb embd_inp n_past_init n_input s =
     (let n = min nb (n_input - s_n_past s);
          embd = take n (drop (s_n_past s - n_past_init) embd_inp)
      in case bloom_eval eenv (s_world s) (s_n_past s) embd (s_mem_per_token s) of
           Traps \<Rightarrow> Trap
         | Returns (EvalFalse w) \<Rightarrow>
             Done 1 (s\<lparr>s_world := w, s_trace := s_trace s @ [Eval (s_n_past s) embd]\<rparr>)
         | Returns (EvalTrue lg mpt w) \<Rightarrow>
             (case refill env embd_inp (s_n_past s + n) n (s_last_n_tokens s) of
                None \<Rightarrow> Trap
              | Some recent \<Rightarrow>
                  Next (s\<lparr>s_n_past := s_n_past s + n, s_logits := lg, s_mem_per_token := mpt,
                           s_world := w, s_last_n_tokens := recent,
                           s_trace := s_trace s @ [Eval (s_n_past s) embd]
                                      @ map (\<lambda>i. InpRead (s_n_past s + n + i)) [0..<n]\<rparr>)))"

text \<open>
  The first loop of \<^verbatim>\<open>chat\<close>, line 994. With a batch size of zero the position does not
  advance, so the loop need not end: the value \<open>None\<close> stands for a loop that runs for ever.
\<close>

partial_function (option) chat_ingest ::
  "'f eval_env \<Rightarrow> ('f, 'g) gen_env \<Rightarrow> nat \<Rightarrow> int list \<Rightarrow> nat \<Rightarrow> nat
     \<Rightarrow> ('f, 'g) gen_state \<Rightarrow> (int, ('f, 'g) gen_state) step option" where
  "chat_ingest eenv env nb embd_inp n_past_init n_input s =
     (if s_n_past s < n_input then
        (case chat_ingest_step eenv env nb embd_inp n_past_init n_input s of
           Trap \<Rightarrow> Some Trap
         | Done r s' \<Rightarrow> Some (Done r s')
         | Next s' \<Rightarrow> chat_ingest eenv env nb embd_inp n_past_init n_input s')
      else Some (Next s))"

text \<open>
  Lines 1019 to 1040: a token is sampled and appended to the recent tokens, its text is
  copied to \<^verbatim>\<open>dst\<close>, and \<^verbatim>\<open>dst\<close> and \<^verbatim>\<open>n_chars\<close> advance by \<^verbatim>\<open>word.size()\<close>.
\<close>

definition chat_sample ::
  "('f, 'g) gen_env \<Rightarrow> gpt_vocab \<Rightarrow> 'f gpt_params
     \<Rightarrow> ('f, 'g) gen_state \<Rightarrow> ('f, 'g) gen_state option" where
  "chat_sample env v params s =
     (case sample_next env v (hparams (fst (s_world s))) params (s_logits s)
             (s_last_n_tokens s) (s_rng s) of
        None \<Rightarrow> None
      | Some (tok, g) \<Rightarrow>
          (case shift_in tok (s_last_n_tokens s) of
             None \<Rightarrow> None
           | Some recent \<Rightarrow>
               (case map_of (id_to_token v) tok of
                  None \<Rightarrow> None
                | Some word \<Rightarrow>
                    Some (s\<lparr>s_rng := g, s_last_n_tokens := recent,
                             s_dst := s_dst s @ [(s_cursor s, c_str word)],
                             s_cursor := s_cursor s + length word,
                             s_n_chars := s_n_chars s + length word\<rparr>))))"

text \<open>Lines 1046 to 1059: the sampled token is evaluated at the current position.\<close>

definition chat_predict ::
  "'f eval_env \<Rightarrow> ('f, 'g) gen_state \<Rightarrow> (int, ('f, 'g) gen_state) step" where
  "chat_predict eenv s =
     (case bloom_eval eenv (s_world s) (s_n_past s) [last (s_last_n_tokens s)]
             (s_mem_per_token s) of
        Traps \<Rightarrow> Trap
      | Returns (EvalFalse w) \<Rightarrow>
          Done (- 1) (s\<lparr>s_world := w,
                         s_trace := s_trace s @ [EvalNext (s_n_past s) [last (s_last_n_tokens s)]]\<rparr>)
      | Returns (EvalTrue lg mpt w) \<Rightarrow>
          Next (s\<lparr>s_n_past := s_n_past s + 1, s_logits := lg, s_mem_per_token := mpt, s_world := w,
                   s_trace := s_trace s @ [EvalNext (s_n_past s) [last (s_last_n_tokens s)]]\<rparr>))"

lemma chat_sample_n_past: "chat_sample env v params s = Some s' \<Longrightarrow> s_n_past s' = s_n_past s"
  by (auto simp: chat_sample_def split: option.splits prod.splits)

lemma chat_predict_n_past: "chat_predict eenv s = Next s' \<Longrightarrow> s_n_past s' = s_n_past s + 1"
  by (auto simp: chat_predict_def split: outcome.splits eval_result.splits)

text \<open>
  The second loop of \<^verbatim>\<open>chat\<close>, line 1018. \<open>bound\<close> is
  \<^verbatim>\<open>n_input + params.n_predict - 1\<close>, computed in \<^verbatim>\<open>size_t\<close>. \<open>Next\<close> is the
  \<^verbatim>\<open>break\<close> of line 1043.
\<close>

function chat_decode ::
  "'f eval_env \<Rightarrow> ('f, 'g) gen_env \<Rightarrow> gpt_vocab \<Rightarrow> 'f gpt_params \<Rightarrow> nat
     \<Rightarrow> ('f, 'g) gen_state \<Rightarrow> (int, ('f, 'g) gen_state) step" where
  "chat_decode eenv env v params bound s =
     (case chat_sample env v params s of
        None \<Rightarrow> Trap
      | Some s1 \<Rightarrow>
          if last (s_last_n_tokens s1) = 2 \<or> s_n_past s1 \<ge> bound then Next s1
          else (case chat_predict eenv s1 of
                  Trap \<Rightarrow> Trap
                | Done r s' \<Rightarrow> Done r s'
                | Next s2 \<Rightarrow> chat_decode eenv env v params bound s2))"
  by pat_completeness auto
termination
proof (relation "measure (\<lambda>(eenv, env, v, params, bound, s). bound - s_n_past s)")
  show "wf (measure (\<lambda>(eenv, env, v, params, bound, s). bound - s_n_past s))"
    by simp
next
  fix eenv :: "'f eval_env" and env :: "('f, 'g) gen_env" and v params bound
    and s s1 s2 :: "('f, 'g) gen_state"
  assume a: "chat_sample env v params s = Some s1"
    and b: "\<not> (last (s_last_n_tokens s1) = 2 \<or> bound \<le> s_n_past s1)"
    and c: "chat_predict eenv s1 = Next s2"
  show "((eenv, env, v, params, bound, s2), (eenv, env, v, params, bound, s))
          \<in> measure (\<lambda>(eenv, env, v, params, bound, s). bound - s_n_past s)"
    using chat_sample_n_past [OF a] chat_predict_n_past [OF c] b by auto
qed

text \<open>
  Lines 981 to 986: the input of a call of \<^verbatim>\<open>chat\<close> is the tokens of its prompt, if the
  prompt is not empty, with the last of the recent tokens put in front if it is positive.
\<close>

definition chat_embd_inp :: "('f, 'g) gen_env \<Rightarrow> gpt_vocab \<Rightarrow> int list \<Rightarrow> string \<Rightarrow> int list" where
  "chat_embd_inp env v recent text =
     (let toks = (if text \<noteq> [] then bloom_tokenize env v text else [])
      in if last recent > 0 then last recent # toks else toks)"

text \<open>
  \<^verbatim>\<open>chat\<close>. \<open>d0\<close> and \<open>c0\<close> are the copies to \<^verbatim>\<open>dst\<close> made before the call and the
  offset its \<^verbatim>\<open>dst\<close> argument has. Line 984 reads \<^verbatim>\<open>last_n_tokens.back()\<close>, for which an
  empty vector has no value. The result is the returned value and the locals at the return;
  \<^verbatim>\<open>n_chars\<close>, \<^verbatim>\<open>n_past\<close> and \<^verbatim>\<open>last_n_tokens\<close> are references into the session.
\<close>

definition chat ::
  "'f eval_env \<Rightarrow> ('f, 'g) gen_env \<Rightarrow> 'f gpt_params \<Rightarrow> 'f world \<Rightarrow> gpt_vocab \<Rightarrow> nat \<Rightarrow> nat \<Rightarrow> nat
     \<Rightarrow> int list \<Rightarrow> (nat \<times> string) list \<Rightarrow> nat \<Rightarrow> (int \<times> ('f, 'g) gen_state) outcome option" where
  "chat eenv env params w v mpt n_chars0 n_past_init recent d0 c0 =
     (if recent = [] then Some Traps
      else
        let embd_inp = chat_embd_inp env v recent (prompt params);
            n_input = n_past_init + length embd_inp;
            params' = params\<lparr>n_predict := min (n_predict params)
                         (wrap32 (n_ctx (hparams (fst w)) - wrap32 (int n_input)))\<rparr>
        in case chat_ingest eenv env (nat (n_batch params mod 2 ^ 64)) embd_inp n_past_init n_input
                  \<lparr>s_rng = mt19937 env (seed params), s_n_past = n_past_init, s_logits = [],
                   s_embd = [], s_last_n_tokens = recent, s_i = 0, s_mem_per_token = mpt,
                   s_world = w, s_dst = d0, s_cursor = c0, s_n_chars = n_chars0,
                   s_trace = (if prompt params \<noteq> [] then [Tokenize (prompt params)] else [])\<rparr> of
             None \<Rightarrow> None
           | Some Trap \<Rightarrow> Some Traps
           | Some (Done r s) \<Rightarrow> Some (Returns (r, s))
           | Some (Next s1) \<Rightarrow>
               (case chat_decode eenv env v params'
                       (nat ((int n_input + n_predict params' - 1) mod 2 ^ 64))
                       (s1\<lparr>s_n_chars := s_n_chars s1 + length (prompt params)\<rparr>) of
                  Trap \<Rightarrow> Some Traps
                | Done r s \<Rightarrow> Some (Returns (r, s))
                | Next s \<Rightarrow> Some (Returns (wrap32 (int (s_n_chars s)), s))))"

text \<open>
  \<^verbatim>\<open>bloom_chat\<close>. The prompt of the call is \<^verbatim>\<open>prompt + ctx->n_chars\<close>, a pointer past
  the end of the text when the session has counted more characters than the text has. The
  text is copied to \<^verbatim>\<open>dst\<close> first. The result is as for \<^verbatim>\<open>bloom_run\<close>.
\<close>

definition bloom_chat ::
  "'f eval_env \<Rightarrow> ('f, 'g) gen_env \<Rightarrow> 'f ChatContext \<Rightarrow> nat \<Rightarrow> int
     \<Rightarrow> int \<Rightarrow> int \<Rightarrow> int \<Rightarrow> int \<Rightarrow> string
     \<Rightarrow> (int \<times> 'f ChatContext \<times> nat \<times> (nat \<times> string) list \<times> gen_event list) outcome option" where
  "bloom_chat eenv env ctx buf_size clock seed_arg n_threads_arg n_batch_arg n_predict_arg text =
     (if n_chars ctx > length text then Some Traps
      else
        case chat eenv env
               (entry_params env clock seed_arg n_threads_arg n_batch_arg n_predict_arg
                  (drop (n_chars ctx) text))
               (model ctx, buf_size) (vocab ctx) (mem_per_token ctx) (n_chars ctx) (n_past ctx)
               (last_n_tokens ctx) [(0, text)] (length text) of
          None \<Rightarrow> None
        | Some Traps \<Rightarrow> Some Traps
        | Some (Returns (ret, s)) \<Rightarrow>
            Some (Returns
              (if ret < 0 then - 1 else 0,
               ctx\<lparr>model := fst (s_world s), n_chars := s_n_chars s, n_past := s_n_past s,
                    last_n_tokens := s_last_n_tokens s\<rparr>,
               snd (s_world s),
               if ret < 0 then s_dst s @ [(length text, [])] else s_dst s,
               s_trace s)))"

text \<open>
  \<^verbatim>\<open>bloom_load\<close>. The result is the session, or \<open>None\<close> for the null pointer, with the
  static \<^verbatim>\<open>buf_size\<close>, the trace of the loader and the trace of forward passes. Line 819
  resizes the recent tokens to \<^verbatim>\<open>repeat_last_n\<close>, which throws for a negative number.
\<close>

definition bloom_load ::
  "'f load_env \<Rightarrow> 'f eval_env \<Rightarrow> ('f, 'g) gen_env \<Rightarrow> byte list option \<Rightarrow> int \<Rightarrow> nat
     \<Rightarrow> ('f ChatContext option \<times> nat \<times> load_event list \<times> gen_event list) outcome" where
  "bloom_load lenv eenv env file ctx_len buf_size =
     (case bloom_model_load lenv file fresh_model empty_vocab ctx_len of
        Traps \<Rightarrow> Traps
      | Returns (res, m, v, ev) \<Rightarrow>
          if \<not> res then Returns (None, buf_size, ev, [])
          else
            (case bloom_eval eenv (m, buf_size) 0 [0, 1, 2, 3] 0 of
               Traps \<Rightarrow> Traps
             | Returns (EvalFalse w) \<Rightarrow> Returns (None, snd w, ev, [Eval 0 [0, 1, 2, 3]])
             | Returns (EvalTrue lg mpt w) \<Rightarrow>
                 if repeat_last_n (default_params env) < 0 then Traps
                 else Returns
                   (Some (new_ChatContext\<lparr>model := fst w, vocab := v, mem_per_token := mpt,
                            last_n_tokens := replicate (nat (repeat_last_n (default_params env))) 0\<rparr>),
                    snd w, ev, [Eval 0 [0, 1, 2, 3]])))"

section \<open>A small configuration\<close>

text \<open>
  A concrete instance for evaluating the definitions: floats are integers, the kernels are
  simple integer functions, the embedding width is 1, there are two layers, three cache
  positions and two vocabulary entries.
\<close>

definition toy_hparams :: bloom_hparams where
  "toy_hparams = \<lparr>n_vocab = 2, n_ctx = 3, n_embd = 1, n_mult = 1, n_head = 1, n_layer = 2, f16 = 0\<rparr>"

definition toy_eval_env :: "int eval_env" where
  "toy_eval_env =
     \<lparr>tok_embed = (\<lambda>toks j. if j < length toks then toks ! j else 0),
      qkv = (\<lambda>il x N j. x (j div 3) + 10 * int (j mod 3) + 100 * int il),
      attn_ffn = (\<lambda>il p N x cur K V j. x j + sum_list K + 1),
      lm_head = (\<lambda>N x j. x (j div 2) + int (j mod 2)),
      realloc_ok = (\<lambda>n. False),
      grown = (\<lambda>n. n + n div 10),
      used_mem = (\<lambda>N. 1000 * N)\<rparr>"

definition toy_model :: "int bloom_model" where
  "toy_model = \<lparr>hparams = toy_hparams, arena = Some 4096,
                  memory_k = [0, 0, 0, 0, 0, 0], memory_v = [0, 0, 0, 0, 0, 0]\<rparr>"

definition toy_load_env :: "int load_env" where
  "toy_load_env = \<lparr>garbage = [0, 0, 0, 0], ctx_size_of = (\<lambda>hp n_ff. 4096),
      ggml_init = (\<lambda>n. True), arena_fill = 0, stream_weights = (\<lambda>hp bs off. True)\<rparr>"

text \<open>
  A vocabulary of two one-letter tokens, a tokenizer that maps each known letter to its
  token, a sampler that draws from the state of the generator, and a session on the small
  model. The default seed is negative.
\<close>

definition toy_vocab :: gpt_vocab where
  "toy_vocab = \<lparr>token_to_id = [''a'' \<mapsto> 0, ''b'' \<mapsto> 1], id_to_token = [(0, ''a''), (1, ''b'')],
                  words = (\<lambda>_. []), space_words = (\<lambda>_. [])\<rparr>"

definition toy_gen_env :: "(int, nat) gen_env" where
  "toy_gen_env =
     \<lparr>default_params = \<lparr>seed = - 1, n_threads = 4, n_predict = 128, repeat_last_n = 2, top_k = 40,
                          top_p = 1, temp = 1, repeat_penalty = 1, n_batch = 8, prompt = []\<rparr>,
      bloom_tokenize = (\<lambda>v text. concat (map (\<lambda>ch. case token_to_id v [ch] of
                                                       None \<Rightarrow> [] | Some t \<Rightarrow> [t]) text)),
      bloom_sample_top_p = (\<lambda>v lg recent params g. (int (g mod 2), g div 2)),
      mt19937 = (\<lambda>s. nat (s mod 4294967296)),
      beyond = (\<lambda>k. 0)\<rparr>"

definition toy_ctx :: "int ChatContext" where
  "toy_ctx = \<lparr>model = toy_model, vocab = toy_vocab, mem_per_token = 1000, n_chars = 0,
                n_past = 0, last_n_tokens = [0, 0]\<rparr>"

text \<open>
  A checkpoint file with the header of the small configuration and two vocabulary entries,
  and the model the loader makes of it for a context of four positions.
\<close>

definition toy_file :: "byte list" where
  "toy_file = [0x6c, 0x6d, 0x67, 0x67,  2, 0, 0, 0,  1, 0, 0, 0,  1, 0, 0, 0,  1, 0, 0, 0,
               2, 0, 0, 0,  0, 0, 0, 0,  1, 0, 0, 0,  0x61,  1, 0, 0, 0,  0x62]"

definition toy_loaded :: "int bloom_model" where
  "toy_loaded = \<lparr>hparams = toy_hparams\<lparr>n_ctx := 4\<rparr>, arena = Some 4096,
                   memory_k = [0, 0, 0, 0, 0, 0, 0, 0], memory_v = [0, 0, 0, 0, 0, 0, 0, 0]\<rparr>"



section \<open>Feed-forward width\<close>

lemma wrap32_id: "- 2147483648 \<le> x \<Longrightarrow> x < 2147483648 \<Longrightarrow> wrap32 x = x"
  by (simp add: wrap32_def)

lemma cdiv_pos: "0 \<le> a \<Longrightarrow> 0 < b \<Longrightarrow> cdiv a b = a div b"
  by (cases "a = 0") (simp_all add: cdiv_def)

lemma div_mult_le_pos: "0 < (b::int) \<Longrightarrow> a div b * b \<le> a"
proof -
  assume b: "0 < b"
  have "a div b * b + a mod b = a" by simp
  moreover have "0 \<le> a mod b" using b by simp
  ultimately show ?thesis by linarith
qed

lemma n_ff_of_in_range:
  assumes "0 < embd" "0 < mult" "4 * embd + mult < 2147483648"
  shows "n_ff_of embd mult = Some (((4 * embd + mult - 1) div mult) * mult)"
proof -
  let ?s = "4 * embd + mult - 1"
  have q0: "0 \<le> ?s div mult"
    using assms by (simp add: pos_imp_zdiv_nonneg_iff)
  have q1: "?s div mult * mult \<le> ?s"
    using assms(2) by (rule div_mult_le_pos)
  have "?s div mult * 1 \<le> ?s div mult * mult"
    using q0 assms(2) by (intro mult_left_mono) simp_all
  then have q2: "?s div mult \<le> ?s"
    using q1 by simp
  have a: "wrap32 (4 * embd) = 4 * embd"
    using assms by (intro wrap32_id) simp_all
  have b: "wrap32 (4 * embd + mult) = 4 * embd + mult"
    using assms by (intro wrap32_id) simp_all
  have c: "wrap32 (4 * embd + mult - 1) = ?s"
    using assms by (intro wrap32_id) simp_all
  have d: "cdiv ?s mult = ?s div mult"
    using assms by (intro cdiv_pos) simp_all
  have e: "wrap32 (?s div mult) = ?s div mult"
    using q0 q2 assms(3) by (intro wrap32_id) simp_all
  have f: "wrap32 (?s div mult * mult) = ?s div mult * mult"
  proof (rule wrap32_id)
    have "0 \<le> ?s div mult * mult" using q0 assms(2) by simp
    then show "- 2147483648 \<le> ?s div mult * mult" by simp
    show "?s div mult * mult < 2147483648" using q1 assms(3) by simp
  qed
  show ?thesis
    using assms(2) by (simp add: n_ff_of_def a b c d e f)
qed

text \<open>
  C5, as amended. For a positive embedding width and a positive granularity such that
  \<open>4 * n_embd + n_mult\<close> fits a 32-bit signed integer (no intermediate result of the
  expression overflows), the loader's feed-forward width is the smallest multiple of
  the granularity that is at least four times the embedding width.
\<close>

theorem n_ff_smallest_multiple:
  assumes "0 < embd" "0 < mult" "4 * embd + mult < 2147483648"
  shows "\<exists>r. n_ff_of embd mult = Some r \<and> mult dvd r \<and> 4 * embd \<le> r
             \<and> (\<forall>m. mult dvd m \<and> 4 * embd \<le> m \<longrightarrow> r \<le> m)"
proof -
  let ?s = "4 * embd + mult - 1"
  let ?r = "(?s div mult) * mult"
  have val: "n_ff_of embd mult = Some ?r"
    using assms by (rule n_ff_of_in_range)
  have dv: "mult dvd ?r" by simp
  have "?s - ?r = ?s mod mult"
    by (simp add: minus_div_mult_eq_mod)
  moreover have "?s mod mult < mult"
    using assms(2) by simp
  ultimately have ge: "4 * embd \<le> ?r" by linarith
  have least: "?r \<le> m" if m: "mult dvd m" "4 * embd \<le> m" for m
  proof -
    obtain k where k: "m = mult * k" using m(1) by (auto simp: dvd_def)
    have "?s div mult \<le> k"
    proof (rule ccontr)
      assume "\<not> ?s div mult \<le> k"
      then have "k + 1 \<le> ?s div mult" by simp
      then have "(k + 1) * mult \<le> ?s div mult * mult"
        using assms(2) by (simp add: mult_right_mono)
      also have "\<dots> \<le> ?s" using assms(2) by (rule div_mult_le_pos)
      finally have "k * mult + mult \<le> 4 * embd + mult - 1"
        by (simp add: algebra_simps)
      then show False using m(2) k by (simp add: algebra_simps)
    qed
    then have "?s div mult * mult \<le> k * mult"
      using assms(2) by (simp add: mult_right_mono)
    then show ?thesis using k by (simp add: algebra_simps)
  qed
  show ?thesis using val dv ge least by blast
qed

theorem n_ff_smallest_multiple_witness:
  "n_ff_of 4096 256 = Some 16384"
proof -
  obtain r where r: "n_ff_of 4096 256 = Some r" "16384 \<le> r"
      "\<forall>m. 256 dvd m \<and> 16384 \<le> m \<longrightarrow> r \<le> m"
    using n_ff_smallest_multiple [of 4096 256] by auto
  have "r \<le> 16384" using r(3) by simp
  then show ?thesis using r(1,2) by simp
qed

text \<open>
  C5, as stated, fails: \<open>n_embd = 2 ^ 29\<close> is a positive \<^verbatim>\<open>int32_t\<close>, and
  \<^verbatim>\<open>4*n_embd\<close> leaves the range of \<^verbatim>\<open>int\<close>. With granularity 1 the computed width is
  negative, so it is not at least four times the embedding width.
\<close>

theorem n_ff_overflow_counterexample:
  "n_ff_of 536870912 1 = Some (- 2147483648) \<and> \<not> (4 * 536870912 \<le> (- 2147483648 :: int))"
  by (simp add: n_ff_of_def wrap32_def cdiv_def)

section \<open>The magic number\<close>

lemma short_magic_read:
  "fin_read (fin_open [0x6c, 0x6d, 0x67]) 4 [0, 0, 0, 0x67]
     = (\<lparr>bytes = [0x6c, 0x6d, 0x67], pos = 3, failbit = True, eofbit = True\<rparr>,
        [0x6c, 0x6d, 0x67, 0x67])"
  by (simp add: fin_read_def fin_open_def)

lemma magic_bytes: "le32 [0x6c, 0x6d, 0x67, 0x67] = magic_constant"
  by (simp add: le32_def magic_constant_def)

lemma failed_read_i32:
  "failbit fin \<Longrightarrow> read_i32 fin old = (fin, dec_i32 (enc_i32 old))"
  by (simp add: read_i32_def fin_read_def)

lemma default_fields:
  "dec_i32 (enc_i32 32000) = 32000" "dec_i32 (enc_i32 4096) = 4096" "dec_i32 (enc_i32 256) = 256"
  "dec_i32 (enc_i32 32) = 32" "dec_i32 (enc_i32 1) = 1"
  by (simp_all add: dec_i32_def enc_i32_def le32_def wrap32_def)

text \<open>
  The loader past the header, for a header that is read as \<open>hp\<close> and a vocabulary loop
  that ends in the given state.
\<close>

lemma bloom_model_load_past_header:
  assumes "fin_read (fin_open bs) 4 (garbage env) = (fin1, mb)"
    and "le32 mb = magic_constant"
    and "load_hparams fin1 (hparams model0) ctx_len = (fin2, hp)"
    and "n_ff_of (n_embd hp) (n_mult hp) = Some n_ff"
    and "fold (load_vocab_step (garbage env)) [0..<nat (n_vocab hp)]
           (fin2, [], vocab0, [FinRead 4] @ replicate 6 (FinRead 4)) = (fin3, word, vocab1, ev2)"
    and "f16 hp \<in> {0, 1, 2, 3}"
    and "ggml_init env (ctx_size_of env hp n_ff)"
    and "0 \<le> n_layer hp"
  shows "bloom_model_load env (Some bs) model0 vocab0 ctx_len =
           Returns (stream_weights env hp bs (if failbit fin3 then - 1 else int (pos fin3)),
                    model0\<lparr>hparams := hp, arena := Some (ctx_size_of env hp n_ff),
                           memory_k := replicate (nat (n_elements_of hp)) (arena_fill env),
                           memory_v := replicate (nat (n_elements_of hp)) (arena_fill env)\<rparr>,
                    index_vocab vocab1,
                    ev2 @ [GgmlInit (ctx_size_of env hp n_ff),
                           StreamWeights (if failbit fin3 then - 1 else int (pos fin3))])"
  using assms by (simp add: bloom_model_load_def Let_def)


text \<open>
  C6, as amended. For a file of at least four bytes whose first four bytes are not the
  magic constant, the loader returns failure after a single read of four bytes: the trace
  has no read of a hyperparameter or of a vocabulary entry and no request for an arena,
  and the model (its hyperparameters and its arena) and the vocabulary are as they were
  before the call.
\<close>

theorem bad_magic_fails_first:
  assumes "4 \<le> length bs" and "le32 (take 4 bs) \<noteq> magic_constant"
  shows "bloom_model_load env (Some bs) m v ctx_len = Returns (False, m, v, [FinRead 4])"
  using assms by (simp add: bloom_model_load_def fin_read_def fin_open_def Let_def)

theorem bad_magic_fails_first_witness:
  "bloom_model_load toy_load_env (Some [1, 2, 3, 4, 5]) fresh_model empty_vocab 16
     = Returns (False, fresh_model, empty_vocab, [FinRead 4])"
proof -
  have "le32 (take 4 [1, 2, 3, 4, 5]) \<noteq> magic_constant"
    by (simp add: le32_def magic_constant_def)
  then show ?thesis
    using bad_magic_fails_first [of "[1, 2, 3, 4, 5]" toy_load_env fresh_model empty_vocab 16]
    by simp
qed


text \<open>
  The claim C6 as it is stated fails on a file of fewer than four bytes. The loader does
  not test the stream after the read of line 98, and the bytes of \<^verbatim>\<open>magic\<close> that the read
  did not store keep what the uninitialised variable held. On the file of the three bytes
  \<^verbatim>\<open>6c 6d 67\<close>, whose first four bytes are not the magic constant, with \<^verbatim>\<open>67\<close> in the
  fourth byte of the variable: the test of line 99 passes, every later read fails and
  leaves the default hyperparameters, and the loader creates the arena.
\<close>

theorem short_file_passes_magic:
  "le32 (take 4 [0x6c, 0x6d, 0x67]) \<noteq> magic_constant \<and>
   (case bloom_model_load (toy_load_env\<lparr>garbage := [0, 0, 0, 0x67]\<rparr>) (Some [0x6c, 0x6d, 0x67])
           fresh_model empty_vocab 512 of
      Returns (ok, m, v, ev) \<Rightarrow> ok \<and> arena m = Some 4096 \<and> GgmlInit 4096 \<in> set ev
    | Traps \<Rightarrow> False)"
proof -
  let ?env = "toy_load_env\<lparr>garbage := [0, 0, 0, 0x67]\<rparr>"
  let ?fin = "\<lparr>bytes = [0x6c, 0x6d, 0x67], pos = 3, failbit = True, eofbit = True\<rparr>"
  let ?hp = "default_hparams\<lparr>n_ctx := 512\<rparr>"
  have g: "garbage ?env = [0, 0, 0, 0x67]" by simp
  have a1: "fin_read (fin_open [0x6c, 0x6d, 0x67]) 4 (garbage ?env) = (?fin, [0x6c, 0x6d, 0x67, 0x67])"
    unfolding g by (rule short_magic_read)
  have a3: "load_hparams ?fin (hparams (fresh_model :: int bloom_model)) 512 = (?fin, ?hp)"
    by (simp add: load_hparams_def failed_read_i32 default_fields default_hparams_def
                  fresh_model_def)
  have a4: "n_ff_of (n_embd ?hp) (n_mult ?hp) = Some 16384"
    by (simp add: n_ff_of_def default_hparams_def wrap32_def cdiv_def)
  obtain fin3 word vocab1 ev2 where
    a5: "fold (load_vocab_step (garbage ?env)) [0..<nat (n_vocab ?hp)]
           (?fin, [], empty_vocab, [FinRead 4] @ replicate 6 (FinRead 4)) = (fin3, word, vocab1, ev2)"
    using prod_cases4 by blast
  have a6: "f16 ?hp \<in> {0, 1, 2, 3}" by (simp add: default_hparams_def)
  have a7: "ggml_init ?env (ctx_size_of ?env ?hp 16384)" by (simp add: toy_load_env_def)
  have a8: "0 \<le> n_layer ?hp" by (simp add: default_hparams_def)
  have cs: "ctx_size_of ?env ?hp 16384 = 4096" by (simp add: toy_load_env_def)
  have "le32 (take 4 [0x6c, 0x6d, 0x67]) \<noteq> magic_constant"
    by (simp add: le32_def magic_constant_def)
  then show ?thesis
    unfolding bloom_model_load_past_header [OF a1 magic_bytes a3 a4 a5 a6 a7 a8] cs
    by (simp add: toy_load_env_def)
qed
section \<open>The cache writes of a forward pass\<close>

lemma cpy_to_view_length [simp]: "length (cpy_to_view src mem n off) = length mem"
  by (simp add: cpy_to_view_def)

lemma cpy_to_view_nth:
  "i < length mem \<Longrightarrow>
   cpy_to_view src mem n off ! i = (if off \<le> i \<and> i < off + n then src (i - off) else mem ! i)"
  by (simp add: cpy_to_view_def)

lemma scaled_le_iff:
  assumes "c < (E::nat)"
  shows "E * b \<le> E * a + c \<longleftrightarrow> b \<le> a"
proof
  assume h: "E * b \<le> E * a + c"
  show "b \<le> a"
  proof (rule ccontr)
    assume "\<not> b \<le> a"
    then have "a + 1 \<le> b" by simp
    then have "E * (a + 1) \<le> E * b" by (rule mult_le_mono2)
    moreover have "E * (a + 1) = E * a + E" by (simp add: algebra_simps)
    ultimately show False using h assms by linarith
  qed
next
  assume "b \<le> a"
  then have "E * b \<le> E * a" by (rule mult_le_mono2)
  then show "E * b \<le> E * a + c" by (rule trans_le_add1)
qed

lemma scaled_less_iff:
  assumes "c < (E::nat)"
  shows "E * a + c < E * b \<longleftrightarrow> a < b"
proof
  assume h: "E * a + c < E * b"
  show "a < b"
  proof (rule ccontr)
    assume "\<not> a < b"
    then have "b \<le> a" by simp
    then have "E * b \<le> E * a" by (rule mult_le_mono2)
    with h show False by linarith
  qed
next
  assume "a < b"
  then have "a + 1 \<le> b" by simp
  then have "E * (a + 1) \<le> E * b" by (rule mult_le_mono2)
  moreover have "E * (a + 1) = E * a + E" by (simp add: algebra_simps)
  ultimately show "E * a + c < E * b" using assms by linarith
qed

lemma region_iff:
  assumes q: "q < (C::nat)" and pn: "p + N \<le> C"
  shows "(k * C + p \<le> il * C + q \<and> il * C + q < k * C + p + N) \<longleftrightarrow> (il = k \<and> p \<le> q \<and> q < p + N)"
proof (cases "il = k")
  case True
  then show ?thesis by auto
next
  case False
  have "\<not> (k * C + p \<le> il * C + q \<and> il * C + q < k * C + p + N)"
  proof (cases "il < k")
    case True
    then have "il + 1 \<le> k" by simp
    then have "(il + 1) * C \<le> k * C" by (rule mult_le_mono1)
    moreover have "(il + 1) * C = il * C + C" by (simp add: algebra_simps)
    ultimately have "il * C + q < k * C + p" using q by linarith
    then show ?thesis by linarith
  next
    case False
    with \<open>il \<noteq> k\<close> have "k + 1 \<le> il" by simp
    then have "(k + 1) * C \<le> il * C" by (rule mult_le_mono1)
    moreover have "(k + 1) * C = k * C + C" by (simp add: algebra_simps)
    ultimately have "k * C + p + N \<le> il * C + q" using pn by linarith
    then show ?thesis by linarith
  qed
  with False show ?thesis by blast
qed

lemma cell_in_write_iff:
  assumes c: "c < E" and q: "q < (C::nat)" and pn: "p + N \<le> C"
  shows "(E * (k * C + p) \<le> E * (il * C + q) + c \<and> E * (il * C + q) + c < E * (k * C + p) + N * E)
         \<longleftrightarrow> (il = k \<and> p \<le> q \<and> q < p + N)"
proof -
  have "E * (k * C + p) + N * E = E * (k * C + p + N)" by (simp add: algebra_simps)
  then show ?thesis
    using scaled_le_iff [OF c, of "k * C + p" "il * C + q"]
          scaled_less_iff [OF c, of "il * C + q" "k * C + p + N"]
          region_iff [OF q pn, of k il]
    by simp
qed

lemma eval_layer_Returns:
  assumes "eval_layer env hp p N il (x, mk, mv) = Returns (x', mk', mv')"
  shows "length mk' = length mk" and "length mv' = length mv"
    and "N = 0 \<Longrightarrow> mk' = mk \<and> mv' = mv"
    and "1 \<le> N \<Longrightarrow>
           view_ok (n_embd hp * (int il * n_ctx hp + int p)) (int N * n_embd hp) mk \<and>
           view_ok (n_embd hp * (int il * n_ctx hp + int p)) (int N * n_embd hp) mv \<and>
           mk' = cpy_to_view (view_2d (qkv env il x N) (nat (n_embd hp)) 1) mk
                   (nat (int N * n_embd hp)) (nat (n_embd hp * (int il * n_ctx hp + int p))) \<and>
           mv' = cpy_to_view (view_2d (qkv env il x N) (nat (n_embd hp)) 2) mv
                   (nat (int N * n_embd hp)) (nat (n_embd hp * (int il * n_ctx hp + int p)))"
  using assms by (auto simp: eval_layer_def Let_def split: if_splits)

lemma eval_layers_Suc_Returns:
  assumes "eval_layers env hp p N (Suc k) s0 = Returns s"
  obtains s1 where "eval_layers env hp p N k s0 = Returns s1" and "eval_layer env hp p N k s1 = Returns s"
  using assms by (auto split: outcome.splits)

lemma eval_layers_prefix:
  assumes "eval_layers env hp p N k s0 = Returns s" and "il \<le> k"
  shows "\<exists>s1. eval_layers env hp p N il s0 = Returns s1"
  using assms
proof (induction k arbitrary: s)
  case 0
  then have "eval_layers env hp p N il s0 = Returns s0" by simp
  then show ?case by blast
next
  case (Suc k)
  show ?case
  proof (cases "il = Suc k")
    case True
    with Suc.prems show ?thesis by blast
  next
    case False
    with Suc.prems have "il \<le> k" by simp
    moreover obtain s1 where "eval_layers env hp p N k s0 = Returns s1"
      using Suc.prems(1) by (rule eval_layers_Suc_Returns)
    ultimately show ?thesis using Suc.IH by blast
  qed
qed

lemma eval_layers_length:
  assumes "eval_layers env hp p N k (x0, mk0, mv0) = Returns (x, mk, mv)"
  shows "length mk = length mk0 \<and> length mv = length mv0"
  using assms
proof (induction k arbitrary: x mk mv)
  case 0
  then show ?case by simp
next
  case (Suc k)
  from Suc.prems obtain s1 where a: "eval_layers env hp p N k (x0, mk0, mv0) = Returns s1"
    and b: "eval_layer env hp p N k s1 = Returns (x, mk, mv)"
    by (rule eval_layers_Suc_Returns)
  obtain x1 mk1 mv1 where s1: "s1 = (x1, mk1, mv1)" by (cases s1) auto
  from Suc.IH [OF a [unfolded s1]] eval_layer_Returns(1,2) [OF b [unfolded s1]]
  show ?case by simp
qed

lemma eval_layers_empty_input:
  assumes "eval_layers env hp p 0 k (x0, mk0, mv0) = Returns (x, mk, mv)"
  shows "mk = mk0 \<and> mv = mv0"
  using assms
proof (induction k arbitrary: x mk mv)
  case 0
  then show ?case by simp
next
  case (Suc k)
  from Suc.prems obtain s1 where a: "eval_layers env hp p 0 k (x0, mk0, mv0) = Returns s1"
    and b: "eval_layer env hp p 0 k s1 = Returns (x, mk, mv)"
    by (rule eval_layers_Suc_Returns)
  obtain x1 mk1 mv1 where s1: "s1 = (x1, mk1, mv1)" by (cases s1) auto
  from Suc.IH [OF a [unfolded s1]] eval_layer_Returns(3) [OF b [unfolded s1]]
  show ?case by simp
qed

lemma eval_layers_view_ok:
  assumes "eval_layers env hp p N k (x0, mk0, mv0) = Returns (x, mk, mv)" and "1 \<le> N" and "il < k"
  shows "view_ok (n_embd hp * (int il * n_ctx hp + int p)) (int N * n_embd hp) mk0"
proof -
  obtain s2 where s2: "eval_layers env hp p N (Suc il) (x0, mk0, mv0) = Returns s2"
    using eval_layers_prefix [OF assms(1), of "Suc il"] assms(3) by auto
  then obtain s1 where a: "eval_layers env hp p N il (x0, mk0, mv0) = Returns s1"
    and b: "eval_layer env hp p N il s1 = Returns s2"
    by (rule eval_layers_Suc_Returns)
  obtain x1 mk1 mv1 where s1: "s1 = (x1, mk1, mv1)" by (cases s1) auto
  obtain x2 mk2 mv2 where s2': "s2 = (x2, mk2, mv2)" by (cases s2) auto
  have "view_ok (n_embd hp * (int il * n_ctx hp + int p)) (int N * n_embd hp) mk1"
    using eval_layer_Returns(4) [OF b [unfolded s1 s2'] assms(2)] by simp
  moreover have "length mk1 = length mk0"
    using eval_layers_length [OF a [unfolded s1]] by simp
  ultimately show ?thesis by (simp add: view_ok_def)
qed

lemma nat_offset:
  assumes "0 \<le> e" and "0 \<le> c"
  shows "nat (e * (int il * c + int p)) = nat e * (il * nat c + p)"
proof -
  have "e * (int il * c + int p) = int (nat e * (il * nat c + p))"
    using assms by simp
  then show ?thesis by (simp only: nat_int)
qed

lemma nat_count: "0 \<le> e \<Longrightarrow> nat (int N * e) = N * nat e"
  by (simp add: nat_mult_distrib)

lemma eval_layers_cells:
  assumes ret: "eval_layers env (hparams m) p (length embd) k
                  (tok_embed env embd, memory_k m, memory_v m) = Returns (x, mk, mv)"
    and N: "1 \<le> length embd"
    and E: "0 \<le> n_embd (hparams m)"
    and C: "int p + int (length embd) \<le> n_ctx (hparams m)"
    and q: "q < nat (n_ctx (hparams m))"
    and c: "c < nat (n_embd (hparams m))"
    and inside: "cell (hparams m) il q c < length (memory_k m)"
                "cell (hparams m) il q c < length (memory_v m)"
  shows "(if il < k \<and> p \<le> q \<and> q < p + length embd
          then kv_at env m p embd 1 il (q - p) c = Some (mk ! cell (hparams m) il q c) \<and>
               kv_at env m p embd 2 il (q - p) c = Some (mv ! cell (hparams m) il q c)
          else mk ! cell (hparams m) il q c = memory_k m ! cell (hparams m) il q c \<and>
               mv ! cell (hparams m) il q c = memory_v m ! cell (hparams m) il q c)"
  using ret
proof (induction k arbitrary: x mk mv)
  case 0
  then show ?case by simp
next
  case (Suc k)
  let ?hp = "hparams m" and ?N = "length embd"
  let ?E = "nat (n_embd ?hp)" and ?C = "nat (n_ctx ?hp)"
  let ?s0 = "(tok_embed env embd, memory_k m, memory_v m)"
  let ?i = "cell ?hp il q c"
  from Suc.prems obtain s1 where a: "eval_layers env ?hp p ?N k ?s0 = Returns s1"
    and b: "eval_layer env ?hp p ?N k s1 = Returns (x, mk, mv)"
    by (rule eval_layers_Suc_Returns)
  obtain x1 mk1 mv1 where s1: "s1 = (x1, mk1, mv1)" by (cases s1) auto
  note a' = a [unfolded s1] and b' = b [unfolded s1]
  have len: "length mk1 = length (memory_k m)" "length mv1 = length (memory_v m)"
    using eval_layers_length [OF a'] by simp_all
  have C0: "0 \<le> n_ctx ?hp" using C by linarith
  have off: "nat (n_embd ?hp * (int k * n_ctx ?hp + int p)) = ?E * (k * ?C + p)"
    using E C0 by (rule nat_offset)
  have cnt: "nat (int ?N * n_embd ?hp) = ?N * ?E"
    using E by (rule nat_count)
  have mk: "mk = cpy_to_view (view_2d (qkv env k x1 ?N) ?E 1) mk1 (?N * ?E) (?E * (k * ?C + p))"
    and mv: "mv = cpy_to_view (view_2d (qkv env k x1 ?N) ?E 2) mv1 (?N * ?E) (?E * (k * ?C + p))"
    using eval_layer_Returns(4) [OF b' N] by (simp_all add: off cnt)
  have pn: "p + ?N \<le> ?C" using C by linarith
  have rng: "(?E * (k * ?C + p) \<le> ?i \<and> ?i < ?E * (k * ?C + p) + ?N * ?E)
             \<longleftrightarrow> (il = k \<and> p \<le> q \<and> q < p + ?N)"
    unfolding cell_def using c q pn by (rule cell_in_write_iff)
  have kval: "kv_at env m p embd part k t c' = Some (view_2d (qkv env k x1 ?N) ?E part (t * ?E + c'))"
    for part t c'
    by (simp add: kv_at_def a')
  have nth_mk: "mk ! ?i = (if ?E * (k * ?C + p) \<le> ?i \<and> ?i < ?E * (k * ?C + p) + ?N * ?E
                            then view_2d (qkv env k x1 ?N) ?E 1 (?i - ?E * (k * ?C + p))
                            else mk1 ! ?i)"
    unfolding mk using inside(1) len(1) by (intro cpy_to_view_nth) simp
  have nth_mv: "mv ! ?i = (if ?E * (k * ?C + p) \<le> ?i \<and> ?i < ?E * (k * ?C + p) + ?N * ?E
                            then view_2d (qkv env k x1 ?N) ?E 2 (?i - ?E * (k * ?C + p))
                            else mv1 ! ?i)"
    unfolding mv using inside(2) len(2) by (intro cpy_to_view_nth) simp
  show ?case
  proof (cases "il = k \<and> p \<le> q \<and> q < p + ?N")
    case True
    then have ilk: "il = k" and pq: "p \<le> q" by simp_all
    have inr: "?E * (k * ?C + p) \<le> ?i \<and> ?i < ?E * (k * ?C + p) + ?N * ?E"
      using rng True by blast
    have "?i - ?E * (k * ?C + p) = (q - p) * ?E + c"
      using pq by (simp add: cell_def ilk algebra_simps diff_mult_distrib2)
    then have "mk ! ?i = view_2d (qkv env k x1 ?N) ?E 1 ((q - p) * ?E + c)"
      and "mv ! ?i = view_2d (qkv env k x1 ?N) ?E 2 ((q - p) * ?E + c)"
      using inr by (simp_all add: nth_mk nth_mv)
    then show ?thesis using True by (simp add: kval)
  next
    case False
    then have out: "\<not> (?E * (k * ?C + p) \<le> ?i \<and> ?i < ?E * (k * ?C + p) + ?N * ?E)"
      using rng by blast
    have "mk ! ?i = mk1 ! ?i"
      unfolding nth_mk by (rule if_not_P [OF out])
    moreover have "mv ! ?i = mv1 ! ?i"
      unfolding nth_mv by (rule if_not_P [OF out])
    moreover have "(il < Suc k \<and> p \<le> q \<and> q < p + ?N) \<longleftrightarrow> (il < k \<and> p \<le> q \<and> q < p + ?N)"
      using False by auto
    ultimately show ?thesis using Suc.IH [OF a'] by (auto split: if_splits)
  qed
qed

lemma bloom_eval_EvalTrue:
  assumes "bloom_eval env (m, b) p embd mpt = Returns (EvalTrue lg mpt' (m', b'))"
  obtains x mk mv where
    "eval_layers env (hparams m) p (length embd) (nat (n_layer (hparams m)))
       (tok_embed env embd, memory_k m, memory_v m) = Returns (x, mk, mv)"
    and "m' = m\<lparr>memory_k := mk, memory_v := mv\<rparr>"
    and "lg = map (\<lambda>j. lm_head env (length embd) x
                        (nat (n_vocab (hparams m)) * (length embd - 1) + j))
                 [0..<nat (n_vocab (hparams m))]"
    and "mpt' = (if mpt = 0 then used_mem env (length embd) div length embd else mpt)"
  using assms
  by (auto simp: bloom_eval_def Let_def split: if_splits outcome.splits prod.splits)

lemma cell_inside:
  assumes "il < L" and "q < C" and "c < E"
  shows "E * (il * C + q) + c < E * L * (C::nat)"
proof -
  have "il + 1 \<le> L" using assms(1) by simp
  then have "(il + 1) * C \<le> L * C" by (rule mult_le_mono1)
  moreover have "(il + 1) * C = il * C + C" by (simp add: algebra_simps)
  ultimately have "il * C + q + 1 \<le> L * C" using assms(2) by linarith
  then have "E * (il * C + q + 1) \<le> E * (L * C)" by (rule mult_le_mono2)
  moreover have "E * (il * C + q + 1) = E * (il * C + q) + E" by (simp add: algebra_simps)
  ultimately show ?thesis using assms(3) by (simp add: mult.assoc)
qed

lemma last_layer_bound:
  assumes ok: "view_ok (e * (int (L - 1) * c + int p)) (int N * e) mem"
    and len: "int (length mem) = e * int L * c"
    and e: "0 < e" and L: "0 < L"
  shows "int p + int N \<le> c"
proof -
  have "e * (int (L - 1) * c + int p) + int N * e \<le> e * int L * c"
    using ok len by (simp add: view_ok_def)
  moreover have "e * (int (L - 1) * c + int p) + int N * e = e * (int (L - 1) * c + int p + int N)"
    by (simp add: algebra_simps)
  moreover have "e * int L * c = e * (int L * c)" by simp
  ultimately have "e * (int (L - 1) * c + int p + int N) \<le> e * (int L * c)" by simp
  then have "int (L - 1) * c + int p + int N \<le> int L * c"
    using e by (simp only: mult_le_cancel_left_pos)
  moreover have "int L * c = int (L - 1) * c + c"
    using L by (simp add: algebra_simps of_nat_diff)
  ultimately show ?thesis by linarith
qed

lemma nat_of_product:
  assumes "int n = a * b * c" and "0 \<le> a" and "0 \<le> b" and "0 \<le> c"
  shows "n = nat a * nat b * nat c"
proof -
  have "int (nat a * nat b * nat c) = a * b * c" using assms(2-4) by simp
  with assms(1) have "int n = int (nat a * nat b * nat c)" by simp
  then show ?thesis by (simp only: of_nat_eq_iff)
qed

lemma single_call:
  assumes wf: "cache_wf m"
    and ev: "bloom_eval env (m, b) p embd mpt = Returns (EvalTrue lg mpt' (m', b'))"
    and il: "il < nat (n_layer (hparams m))"
    and q: "q < nat (n_ctx (hparams m))"
    and c: "c < nat (n_embd (hparams m))"
  shows "hparams m' = hparams m" and "cache_wf m'"
    and "if p \<le> q \<and> q < p + length embd
         then kv_at env m p embd 1 il (q - p) c = Some (memory_k m' ! cell (hparams m) il q c) \<and>
              kv_at env m p embd 2 il (q - p) c = Some (memory_v m' ! cell (hparams m) il q c)
         else memory_k m' ! cell (hparams m) il q c = memory_k m ! cell (hparams m) il q c \<and>
              memory_v m' ! cell (hparams m) il q c = memory_v m ! cell (hparams m) il q c"
proof -
  let ?hp = "hparams m"
  let ?L = "nat (n_layer ?hp)"
  obtain x mk mv where
    ret: "eval_layers env ?hp p (length embd) ?L (tok_embed env embd, memory_k m, memory_v m)
            = Returns (x, mk, mv)"
    and m': "m' = m\<lparr>memory_k := mk, memory_v := mv\<rparr>"
    using ev by (rule bloom_eval_EvalTrue)
  show hp: "hparams m' = hparams m" by (simp add: m')
  have len: "length mk = length (memory_k m)" "length mv = length (memory_v m)"
    using eval_layers_length [OF ret] by simp_all
  show "cache_wf m'" using wf by (simp add: cache_wf_def m' len)
  have e: "0 < n_embd ?hp" and l: "0 < n_layer ?hp" and c0: "0 < n_ctx ?hp"
    using c il q by simp_all
  have lenk: "length (memory_k m) = nat (n_embd ?hp) * ?L * nat (n_ctx ?hp)"
   and lenv: "length (memory_v m) = nat (n_embd ?hp) * ?L * nat (n_ctx ?hp)"
    using wf e l c0 by (auto simp: cache_wf_def intro!: nat_of_product)
  have inside: "cell ?hp il q c < length (memory_k m)" "cell ?hp il q c < length (memory_v m)"
    unfolding lenk lenv cell_def using il q c by (rule cell_inside)+
  show "if p \<le> q \<and> q < p + length embd
         then kv_at env m p embd 1 il (q - p) c = Some (memory_k m' ! cell ?hp il q c) \<and>
              kv_at env m p embd 2 il (q - p) c = Some (memory_v m' ! cell ?hp il q c)
         else memory_k m' ! cell ?hp il q c = memory_k m ! cell ?hp il q c \<and>
              memory_v m' ! cell ?hp il q c = memory_v m ! cell ?hp il q c"
  proof (cases "length embd = 0")
    case True
    then have "mk = memory_k m \<and> mv = memory_v m"
      using ret eval_layers_empty_input by fastforce
    moreover have "\<not> (p \<le> q \<and> q < p + length embd)" using True by simp
    ultimately show ?thesis by (auto simp: m')
  next
    case False
    then have N: "1 \<le> length embd" by (cases embd) simp_all
    have "?L - 1 < ?L" using il by simp
    from eval_layers_view_ok [OF ret N this]
    have ok: "view_ok (n_embd ?hp * (int (?L - 1) * n_ctx ?hp + int p))
                (int (length embd) * n_embd ?hp) (memory_k m)" .
    have "int (length (memory_k m)) = n_embd ?hp * int ?L * n_ctx ?hp"
      using wf l by (simp add: cache_wf_def)
    with ok have C: "int p + int (length embd) \<le> n_ctx ?hp"
      using e il by (intro last_layer_bound [where L = ?L and mem = "memory_k m" and e = "n_embd ?hp"]) simp_all
    have "if il < ?L \<and> p \<le> q \<and> q < p + length embd
          then kv_at env m p embd 1 il (q - p) c = Some (mk ! cell ?hp il q c) \<and>
               kv_at env m p embd 2 il (q - p) c = Some (mv ! cell ?hp il q c)
          else mk ! cell ?hp il q c = memory_k m ! cell ?hp il q c \<and>
               mv ! cell ?hp il q c = memory_v m ! cell ?hp il q c"
      using ret N _ C q c inside by (rule eval_layers_cells) (use e in simp)
    then show ?thesis using il by (auto simp: m' split: if_splits)
  qed
qed

lemma eval_layers_numeral:
  "eval_layers env hp p N (numeral v) s =
     (case eval_layers env hp p N (pred_numeral v) s of
        Traps \<Rightarrow> Traps
      | Returns s' \<Rightarrow> eval_layer env hp p N (pred_numeral v) s')"
  by (simp add: numeral_eq_Suc)

lemmas toy_eval_simps =
  bloom_eval_def eval_layers_numeral eval_layer_def toy_hparams_def toy_eval_env_def toy_model_def
  view_ok_def cpy_to_view_def view_2d_def view_1d_def Let_def upt_rec initial_buf_size_def
  fits32_def

lemma toy_first_call:
  "bloom_eval toy_eval_env (toy_model, initial_buf_size) 0 [5, 6] 0 =
     Returns (EvalTrue [334, 335] 1000
       (toy_model\<lparr>memory_k := [15, 16, 0, 147, 148, 0], memory_v := [25, 26, 0, 157, 158, 0]\<rparr>,
        initial_buf_size))"
  by (simp add: toy_eval_simps numeral_2_eq_2 [symmetric])

lemma toy_second_call:
  "bloom_eval toy_eval_env
     (toy_model\<lparr>memory_k := [15, 16, 0, 147, 148, 0], memory_v := [25, 26, 0, 157, 158, 0]\<rparr>,
      initial_buf_size) 2 [7] 1000 =
     Returns (EvalTrue [518, 519] 1000
       (toy_model\<lparr>memory_k := [15, 16, 17, 147, 148, 166], memory_v := [25, 26, 27, 157, 158, 176]\<rparr>,
        initial_buf_size))"
  by (simp add: toy_eval_simps)

lemma toy_cache_wf: "cache_wf toy_model"
  by (simp add: cache_wf_def toy_model_def toy_hparams_def)

section \<open>When a forward pass returns\<close>

text \<open>
  The offsets and sizes of a layer's views when the cache tensors have
  \<open>n_embd * n_layer * n_ctx\<close> elements, a number below \<open>2^31\<close>, and the call stays inside
  the context: every intermediate result is an \<^verbatim>\<open>int\<close> and both views lie inside the
  tensor.
\<close>

lemma layer_bounds:
  assumes e: "0 < (E::int)" and il: "int il < L" and C: "int p + int N \<le> C"
  shows "0 \<le> int il * C" and "int il * C + int p + int N \<le> L * C"
    and "L * C \<le> E * L * C" and "int N * E \<le> E * (int il * C + int p + int N)"
    and "E * (int il * C + int p + int N) \<le> E * L * C"
    and "int il * C + int p + int N \<le> E * (int il * C + int p + int N)"
proof -
  have c0: "0 \<le> C" using C by linarith
  show a: "0 \<le> int il * C" using c0 by simp
  have "int il + 1 \<le> L" using il by linarith
  then have "(int il + 1) * C \<le> L * C" using c0 by (rule mult_right_mono)
  then show b: "int il * C + int p + int N \<le> L * C" using C by (simp add: algebra_simps)
  have lc: "0 \<le> L * C" using a b by linarith
  have "1 * (L * C) \<le> E * (L * C)" using e lc by (intro mult_right_mono) simp_all
  then show "L * C \<le> E * L * C" by (simp add: mult.assoc)
  have "int N \<le> int il * C + int p + int N" using a by linarith
  then have "E * int N \<le> E * (int il * C + int p + int N)" using e by (intro mult_left_mono) simp_all
  then show "int N * E \<le> E * (int il * C + int p + int N)" by (simp add: mult.commute)
  have "E * (int il * C + int p + int N) \<le> E * (L * C)" using b e by (intro mult_left_mono) simp_all
  then show "E * (int il * C + int p + int N) \<le> E * L * C" by (simp add: mult.assoc)
  have s0: "0 \<le> int il * C + int p + int N" using a by linarith
  have "1 * (int il * C + int p + int N) \<le> E * (int il * C + int p + int N)"
    using e s0 by (intro mult_right_mono) simp_all
  then show "int il * C + int p + int N \<le> E * (int il * C + int p + int N)" by simp
qed

lemma eval_layer_returns:
  assumes e: "0 < n_embd hp" and il: "int il < n_layer hp"
    and C: "int p + int N \<le> n_ctx hp"
    and small: "n_embd hp * n_layer hp * n_ctx hp < 2147483648"
    and lk: "int (length mk) = n_embd hp * n_layer hp * n_ctx hp"
    and lv: "int (length mv) = n_embd hp * n_layer hp * n_ctx hp"
  shows "\<exists>s'. eval_layer env hp p N il (x, mk, mv) = Returns s'"
proof -
  let ?E = "n_embd hp" and ?L = "n_layer hp" and ?C = "n_ctx hp"
  note b = layer_bounds [OF e il C]
  define S where "S = int il * ?C + int p + int N"
  define T where "T = ?E * S"
  define X where "X = ?E * ?L * ?C"
  have ic: "0 \<le> int il * ?C" by (rule b(1))
  have S_T: "S \<le> T" unfolding T_def S_def by (rule b(6))
  have T_X: "T \<le> X" unfolding T_def S_def X_def by (rule b(5))
  have N_T: "int N * ?E \<le> T" unfolding T_def S_def by (rule b(4))
  have X_lt: "X < 2147483648" unfolding X_def by (rule small)
  have off: "?E * (int il * ?C + int p) + int N * ?E = T"
    unfolding T_def S_def by (simp add: algebra_simps)
  have roff: "int il * ?C * ?E + (int p + int N) * ?E = T"
    unfolding T_def S_def by (simp add: algebra_simps)
  have off0: "0 \<le> ?E * (int il * ?C + int p)" using e ic by simp
  have cnt0: "0 \<le> int N * ?E" using e by simp
  have roff0: "0 \<le> int il * ?C * ?E" using e ic by simp
  have rcnt0: "0 \<le> (int p + int N) * ?E" using e by simp
  have f1: "fits32 (int il * ?C)"
    unfolding fits32_def using ic S_T T_X X_lt unfolding S_def by linarith
  have f2: "fits32 (int il * ?C + int p)"
    unfolding fits32_def using ic S_T T_X X_lt unfolding S_def by linarith
  have f3: "fits32 (int N * ?E)"
    unfolding fits32_def using cnt0 N_T T_X X_lt by linarith
  have f4: "fits32 (int p + int N)"
    unfolding fits32_def using ic S_T T_X X_lt unfolding S_def by linarith
  have f5: "fits32 ((int p + int N) * ?E)"
    unfolding fits32_def using rcnt0 roff roff0 T_X X_lt by linarith
  have vk: "view_ok (?E * (int il * ?C + int p)) (int N * ?E) mk"
    unfolding view_ok_def lk using off0 cnt0 off T_X unfolding X_def by simp
  have vv: "view_ok (?E * (int il * ?C + int p)) (int N * ?E) mv"
    unfolding view_ok_def lv using off0 cnt0 off T_X unfolding X_def by simp
  have rk: "view_ok (int il * ?C * ?E) ((int p + int N) * ?E) mem"
    if "int (length mem) = ?E * ?L * ?C" for mem :: "'a list"
    unfolding view_ok_def that using roff0 rcnt0 roff T_X unfolding X_def by simp
  show ?thesis
    by (simp add: eval_layer_def Let_def f1 f2 f3 f4 f5 vk vv rk lk lv)
qed

lemma eval_layers_returns:
  assumes e: "0 < n_embd hp" and k: "int k \<le> n_layer hp"
    and C: "int p + int N \<le> n_ctx hp"
    and small: "n_embd hp * n_layer hp * n_ctx hp < 2147483648"
    and lk: "int (length mk0) = n_embd hp * n_layer hp * n_ctx hp"
    and lv: "int (length mv0) = n_embd hp * n_layer hp * n_ctx hp"
  shows "\<exists>x mk mv. eval_layers env hp p N k (x0, mk0, mv0) = Returns (x, mk, mv)"
  using k
proof (induction k)
  case 0
  show ?case by simp
next
  case (Suc k)
  then have "int k \<le> n_layer hp" and il: "int k < n_layer hp" by simp_all
  with Suc.IH obtain x1 mk1 mv1 where
    a: "eval_layers env hp p N k (x0, mk0, mv0) = Returns (x1, mk1, mv1)" by blast
  have len: "length mk1 = length mk0" "length mv1 = length mv0"
    using eval_layers_length [OF a] by simp_all
  obtain s' where b: "eval_layer env hp p N k (x1, mk1, mv1) = Returns s'"
    using eval_layer_returns [OF e il C small, of mk1 mv1 env x1] lk lv len by auto
  obtain x mk mv where "s' = (x, mk, mv)" by (cases s') auto
  with a b show ?case by simp
qed

lemma bloom_eval_returns:
  assumes wf: "cache_wf m"
    and small: "n_embd (hparams m) * n_layer (hparams m) * n_ctx (hparams m) < 2147483648"
    and e: "0 < n_embd (hparams m)" and h: "n_head (hparams m) \<noteq> 0"
    and v: "0 \<le> n_vocab (hparams m)"
    and ne: "embd \<noteq> []"
    and C: "int p + int (length embd) \<le> n_ctx (hparams m)"
    and rng: "n_vocab (hparams m) * (int (length embd) - 1) < 2147483648"
    and ra: "(mpt * length embd) mod 2 ^ 64 \<le> b
             \<or> realloc_ok env (grown env ((mpt * length embd) mod 2 ^ 64))"
  shows "\<exists>lg mpt' m' b'. bloom_eval env (m, b) p embd mpt = Returns (EvalTrue lg mpt' (m', b'))"
proof -
  let ?hp = "hparams m" and ?N = "length embd"
  have lk: "int (length (memory_k m)) = n_embd ?hp * n_layer ?hp * n_ctx ?hp"
    and lv: "int (length (memory_v m)) = n_embd ?hp * n_layer ?hp * n_ctx ?hp"
    using wf by (simp_all add: cache_wf_def)
  have k: "int (nat (n_layer ?hp)) \<le> n_layer ?hp \<or> n_layer ?hp < 0" by linarith
  have "\<exists>x mk mv. eval_layers env ?hp p ?N (nat (n_layer ?hp))
                     (tok_embed env embd, memory_k m, memory_v m) = Returns (x, mk, mv)"
  proof (cases "n_layer ?hp < 0")
    case True
    then have "nat (n_layer ?hp) = 0" by simp
    then show ?thesis by simp
  next
    case False
    then have "int (nat (n_layer ?hp)) \<le> n_layer ?hp" by simp
    from eval_layers_returns [OF e this C small lk lv] show ?thesis .
  qed
  then obtain x mk mv where
    ret: "eval_layers env ?hp p ?N (nat (n_layer ?hp))
            (tok_embed env embd, memory_k m, memory_v m) = Returns (x, mk, mv)" by blast
  have n0: "?N \<noteq> 0" using ne by simp
  have "0 \<le> int ?N - 1" using ne by (cases embd) simp_all
  then have "0 \<le> n_vocab ?hp * (int ?N - 1)" using v by simp
  with rng have f: "fits32 (n_vocab ?hp * (int ?N - 1))" by (simp add: fits32_def)
  have nh: "\<not> (n_head ?hp = 0 \<or> n_embd ?hp = - 2147483648 \<and> n_head ?hp = - 1)"
    using h e by simp
  have nv: "\<not> n_vocab ?hp < 0" using v by simp
  have rs: "\<not> ((0 < mpt \<and> b < (mpt * ?N) mod 2 ^ 64)
               \<and> \<not> realloc_ok env (grown env ((mpt * ?N) mod 2 ^ 64)))"
    using ra by auto
  show ?thesis
    unfolding bloom_eval_def Let_def prod.case
    by (simp only: nh rs if_False ret outcome.case prod.case nv n0 f not_not simp_thms) blast
qed

lemma eval_keeps_shape:
  assumes wf: "cache_wf m"
    and ev: "bloom_eval env (m, b) p embd mpt = Returns (EvalTrue lg mpt' (m', b'))"
  shows "hparams m' = hparams m" and "cache_wf m'"
proof -
  obtain x mk mv where
    ret: "eval_layers env (hparams m) p (length embd) (nat (n_layer (hparams m)))
            (tok_embed env embd, memory_k m, memory_v m) = Returns (x, mk, mv)"
    and m': "m' = m\<lparr>memory_k := mk, memory_v := mv\<rparr>"
    using ev by (rule bloom_eval_EvalTrue)
  show "hparams m' = hparams m" by (simp add: m')
  have "length mk = length (memory_k m)" "length mv = length (memory_v m)"
    using eval_layers_length [OF ret] by simp_all
  then show "cache_wf m'" using wf by (simp add: cache_wf_def m')
qed

text \<open>
  C2, as amended. On a model whose embedding width is positive, whose \<^verbatim>\<open>n_head\<close> is not
  zero, whose \<^verbatim>\<open>n_vocab\<close> is not negative and whose cache tensors hold
  \<open>n_embd * n_layer * n_ctx\<close> floats, fewer than \<open>2^31\<close>, a forward pass over a non-empty
  input that stays inside the context (\<open>p + N \<le> n_ctx\<close>), whose logits offset
  \<open>n_vocab * (N - 1)\<close> is an \<^verbatim>\<open>int\<close> and whose scratch buffer is large enough or can be
  reallocated, returns \<^verbatim>\<open>true\<close>, and then, in the region of every layer, exactly the
  positions from \<open>p\<close> up to \<open>p + N\<close> hold the keys and values the layer computed for the
  input tokens and every other position, in particular every position below \<open>p\<close>, holds
  what it held before. A second such pass that starts where the first ended and still
  stays inside the context returns \<^verbatim>\<open>true\<close> as well; after it the positions of the first
  pass hold the keys and values of the first pass, those of the second pass the keys and
  values of the second, and all other positions, in particular those below \<open>p\<close>, are
  unchanged.
\<close>

theorem cache_writes_frame:
  assumes wf: "cache_wf m"
    and small: "n_embd (hparams m) * n_layer (hparams m) * n_ctx (hparams m) < 2147483648"
    and e: "0 < n_embd (hparams m)" and h: "n_head (hparams m) \<noteq> 0"
    and v: "0 \<le> n_vocab (hparams m)"
    and ne1: "e1 \<noteq> []"
    and C1: "int p + int (length e1) \<le> n_ctx (hparams m)"
    and v1: "n_vocab (hparams m) * (int (length e1) - 1) < 2147483648"
    and r1: "(mpt * length e1) mod 2 ^ 64 \<le> b
             \<or> realloc_ok env (grown env ((mpt * length e1) mod 2 ^ 64))"
  shows "\<exists>lg1 mpt1 m1 b1.
           bloom_eval env (m, b) p e1 mpt = Returns (EvalTrue lg1 mpt1 (m1, b1)) \<and>
           (\<forall>il < nat (n_layer (hparams m)). \<forall>q < nat (n_ctx (hparams m)).
              \<forall>c < nat (n_embd (hparams m)).
                if p \<le> q \<and> q < p + length e1
                then kv_at env m p e1 1 il (q - p) c = Some (memory_k m1 ! cell (hparams m) il q c) \<and>
                     kv_at env m p e1 2 il (q - p) c = Some (memory_v m1 ! cell (hparams m) il q c)
                else memory_k m1 ! cell (hparams m) il q c = memory_k m ! cell (hparams m) il q c \<and>
                     memory_v m1 ! cell (hparams m) il q c = memory_v m ! cell (hparams m) il q c) \<and>
           (e2 \<noteq> [] \<and> int p + int (length e1) + int (length e2) \<le> n_ctx (hparams m) \<and>
            n_vocab (hparams m) * (int (length e2) - 1) < 2147483648 \<and>
            ((mpt' * length e2) mod 2 ^ 64 \<le> b'
             \<or> realloc_ok env (grown env ((mpt' * length e2) mod 2 ^ 64)))
            \<longrightarrow>
            (\<exists>lg2 mpt2 m2 b2.
               bloom_eval env (m1, b') (p + length e1) e2 mpt' = Returns (EvalTrue lg2 mpt2 (m2, b2)) \<and>
               (\<forall>il < nat (n_layer (hparams m)). \<forall>q < nat (n_ctx (hparams m)).
                  \<forall>c < nat (n_embd (hparams m)).
                    if q < p
                    then memory_k m2 ! cell (hparams m) il q c = memory_k m ! cell (hparams m) il q c \<and>
                         memory_v m2 ! cell (hparams m) il q c = memory_v m ! cell (hparams m) il q c
                    else if q < p + length e1
                    then kv_at env m p e1 1 il (q - p) c = Some (memory_k m2 ! cell (hparams m) il q c) \<and>
                         kv_at env m p e1 2 il (q - p) c = Some (memory_v m2 ! cell (hparams m) il q c)
                    else if q < p + length e1 + length e2
                    then kv_at env m1 (p + length e1) e2 1 il (q - (p + length e1)) c
                           = Some (memory_k m2 ! cell (hparams m) il q c) \<and>
                         kv_at env m1 (p + length e1) e2 2 il (q - (p + length e1)) c
                           = Some (memory_v m2 ! cell (hparams m) il q c)
                    else memory_k m2 ! cell (hparams m) il q c = memory_k m ! cell (hparams m) il q c \<and>
                         memory_v m2 ! cell (hparams m) il q c = memory_v m ! cell (hparams m) il q c)))"
proof -
  let ?hp = "hparams m"
  obtain lg1 mpt1 m1 b1 where
    c1: "bloom_eval env (m, b) p e1 mpt = Returns (EvalTrue lg1 mpt1 (m1, b1))"
    using bloom_eval_returns [OF wf small e h v ne1 C1 v1 r1] by blast
  note shape = eval_keeps_shape [OF wf c1]
  have first: "if p \<le> q \<and> q < p + length e1
       then kv_at env m p e1 1 il (q - p) c = Some (memory_k m1 ! cell ?hp il q c) \<and>
            kv_at env m p e1 2 il (q - p) c = Some (memory_v m1 ! cell ?hp il q c)
       else memory_k m1 ! cell ?hp il q c = memory_k m ! cell ?hp il q c \<and>
            memory_v m1 ! cell ?hp il q c = memory_v m ! cell ?hp il q c"
    if "il < nat (n_layer ?hp)" "q < nat (n_ctx ?hp)" "c < nat (n_embd ?hp)" for il q c
    using single_call(3) [OF wf c1 that] .
  have second: "\<exists>lg2 mpt2 m2 b2.
       bloom_eval env (m1, b') (p + length e1) e2 mpt' = Returns (EvalTrue lg2 mpt2 (m2, b2)) \<and>
       (\<forall>il < nat (n_layer ?hp). \<forall>q < nat (n_ctx ?hp). \<forall>c < nat (n_embd ?hp).
          if q < p
          then memory_k m2 ! cell ?hp il q c = memory_k m ! cell ?hp il q c \<and>
               memory_v m2 ! cell ?hp il q c = memory_v m ! cell ?hp il q c
          else if q < p + length e1
          then kv_at env m p e1 1 il (q - p) c = Some (memory_k m2 ! cell ?hp il q c) \<and>
               kv_at env m p e1 2 il (q - p) c = Some (memory_v m2 ! cell ?hp il q c)
          else if q < p + length e1 + length e2
          then kv_at env m1 (p + length e1) e2 1 il (q - (p + length e1)) c
                 = Some (memory_k m2 ! cell ?hp il q c) \<and>
               kv_at env m1 (p + length e1) e2 2 il (q - (p + length e1)) c
                 = Some (memory_v m2 ! cell ?hp il q c)
          else memory_k m2 ! cell ?hp il q c = memory_k m ! cell ?hp il q c \<and>
               memory_v m2 ! cell ?hp il q c = memory_v m ! cell ?hp il q c)"
    if ne2: "e2 \<noteq> []"
      and C2: "int p + int (length e1) + int (length e2) \<le> n_ctx ?hp"
      and v2: "n_vocab ?hp * (int (length e2) - 1) < 2147483648"
      and r2: "(mpt' * length e2) mod 2 ^ 64 \<le> b'
               \<or> realloc_ok env (grown env ((mpt' * length e2) mod 2 ^ 64))"
  proof -
    have C2': "int (p + length e1) + int (length e2) \<le> n_ctx (hparams m1)"
      using C2 by (simp add: shape(1))
    have small': "n_embd (hparams m1) * n_layer (hparams m1) * n_ctx (hparams m1) < 2147483648"
      and e': "0 < n_embd (hparams m1)" and h': "n_head (hparams m1) \<noteq> 0"
      and v': "0 \<le> n_vocab (hparams m1)"
      and v2': "n_vocab (hparams m1) * (int (length e2) - 1) < 2147483648"
      using small e h v v2 by (simp_all add: shape(1))
    obtain lg2 mpt2 m2 b2 where
      c2: "bloom_eval env (m1, b') (p + length e1) e2 mpt' = Returns (EvalTrue lg2 mpt2 (m2, b2))"
      using bloom_eval_returns [OF shape(2) small' e' h' v' ne2 C2' v2' r2] by blast
    have "if q < p
          then memory_k m2 ! cell ?hp il q c = memory_k m ! cell ?hp il q c \<and>
               memory_v m2 ! cell ?hp il q c = memory_v m ! cell ?hp il q c
          else if q < p + length e1
          then kv_at env m p e1 1 il (q - p) c = Some (memory_k m2 ! cell ?hp il q c) \<and>
               kv_at env m p e1 2 il (q - p) c = Some (memory_v m2 ! cell ?hp il q c)
          else if q < p + length e1 + length e2
          then kv_at env m1 (p + length e1) e2 1 il (q - (p + length e1)) c
                 = Some (memory_k m2 ! cell ?hp il q c) \<and>
               kv_at env m1 (p + length e1) e2 2 il (q - (p + length e1)) c
                 = Some (memory_v m2 ! cell ?hp il q c)
          else memory_k m2 ! cell ?hp il q c = memory_k m ! cell ?hp il q c \<and>
               memory_v m2 ! cell ?hp il q c = memory_v m ! cell ?hp il q c"
      if il: "il < nat (n_layer ?hp)" and q: "q < nat (n_ctx ?hp)" and c: "c < nat (n_embd ?hp)"
      for il q c
    proof -
      have il1: "il < nat (n_layer (hparams m1))" and q1: "q < nat (n_ctx (hparams m1))"
        and c1': "c < nat (n_embd (hparams m1))"
        using il q c by (simp_all add: shape(1))
      note snd_call = single_call(3) [OF shape(2) c2 il1 q1 c1', unfolded shape(1)]
      show ?thesis
        using first [OF il q c] snd_call by (auto split: if_splits)
    qed
    with c2 show ?thesis by blast
  qed
  from first have first': "\<forall>il < nat (n_layer ?hp). \<forall>q < nat (n_ctx ?hp). \<forall>c < nat (n_embd ?hp).
       if p \<le> q \<and> q < p + length e1
       then kv_at env m p e1 1 il (q - p) c = Some (memory_k m1 ! cell ?hp il q c) \<and>
            kv_at env m p e1 2 il (q - p) c = Some (memory_v m1 ! cell ?hp il q c)
       else memory_k m1 ! cell ?hp il q c = memory_k m ! cell ?hp il q c \<and>
            memory_v m1 ! cell ?hp il q c = memory_v m ! cell ?hp il q c"
    by blast
  show ?thesis
    apply (rule exI [where x = lg1], rule exI [where x = mpt1])
    apply (rule exI [where x = m1], rule exI [where x = b1])
    apply (intro conjI impI)
      apply (rule c1)
     apply (rule first')
    apply (elim conjE)
    apply (rule second)
       apply assumption+
    done
qed

theorem cache_writes_frame_witness:
  "bloom_eval toy_eval_env (toy_model, initial_buf_size) 0 [5, 6] 0 =
     Returns (EvalTrue [334, 335] 1000
       (toy_model\<lparr>memory_k := [15, 16, 0, 147, 148, 0], memory_v := [25, 26, 0, 157, 158, 0]\<rparr>,
        initial_buf_size)) \<and>
   kv_at toy_eval_env toy_model 0 [5, 6] 1 1 0 0 = Some 147 \<and>
   kv_at toy_eval_env toy_model 0 [5, 6] 2 1 1 0 = Some 158 \<and>
   bloom_eval toy_eval_env
     (toy_model\<lparr>memory_k := [15, 16, 0, 147, 148, 0], memory_v := [25, 26, 0, 157, 158, 0]\<rparr>,
      initial_buf_size) 2 [7] 1000 =
     Returns (EvalTrue [518, 519] 1000
       (toy_model\<lparr>memory_k := [15, 16, 17, 147, 148, 166], memory_v := [25, 26, 27, 157, 158, 176]\<rparr>,
        initial_buf_size)) \<and>
   kv_at toy_eval_env
     (toy_model\<lparr>memory_k := [15, 16, 0, 147, 148, 0], memory_v := [25, 26, 0, 157, 158, 0]\<rparr>)
     2 [7] 1 1 0 0 = Some 166"
proof -
  let ?m1 = "toy_model\<lparr>memory_k := [15, 16, 0, 147, 148, 0], memory_v := [25, 26, 0, 157, 158, 0]\<rparr>"
  let ?m2 = "toy_model\<lparr>memory_k := [15, 16, 17, 147, 148, 166],
                         memory_v := [25, 26, 27, 157, 158, 176]\<rparr>"
  have hp: "hparams toy_model = toy_hparams" by (simp add: toy_model_def)
  have pre: "n_embd (hparams toy_model) * n_layer (hparams toy_model) * n_ctx (hparams toy_model)
               < 2147483648"
      "0 < n_embd (hparams toy_model)" "n_head (hparams toy_model) \<noteq> 0"
      "0 \<le> n_vocab (hparams toy_model)" "[5, 6 :: int] \<noteq> []"
      "int 0 + int (length [5, 6 :: int]) \<le> n_ctx (hparams toy_model)"
      "n_vocab (hparams toy_model) * (int (length [5, 6 :: int]) - 1) < 2147483648"
      "(0 * length [5, 6 :: int]) mod 2 ^ 64 \<le> initial_buf_size
       \<or> realloc_ok toy_eval_env (grown toy_eval_env ((0 * length [5, 6 :: int]) mod 2 ^ 64))"
    by (simp_all add: hp toy_hparams_def)
  from cache_writes_frame [OF toy_cache_wf pre, where ?e2.0 = "[7]" and b' = initial_buf_size
                             and mpt' = 1000]
  obtain lg1 mpt1 m1 b1 where
    c1: "bloom_eval toy_eval_env (toy_model, initial_buf_size) 0 [5, 6] 0
           = Returns (EvalTrue lg1 mpt1 (m1, b1))"
    and f1: "\<forall>il < nat (n_layer (hparams toy_model)). \<forall>q < nat (n_ctx (hparams toy_model)).
        \<forall>c < nat (n_embd (hparams toy_model)).
          if 0 \<le> q \<and> q < 0 + length [5, 6 :: int]
          then kv_at toy_eval_env toy_model 0 [5, 6] 1 il (q - 0) c
                 = Some (memory_k m1 ! cell (hparams toy_model) il q c) \<and>
               kv_at toy_eval_env toy_model 0 [5, 6] 2 il (q - 0) c
                 = Some (memory_v m1 ! cell (hparams toy_model) il q c)
          else memory_k m1 ! cell (hparams toy_model) il q c
                 = memory_k toy_model ! cell (hparams toy_model) il q c \<and>
               memory_v m1 ! cell (hparams toy_model) il q c
                 = memory_v toy_model ! cell (hparams toy_model) il q c"
    and imp: "[7 :: int] \<noteq> [] \<and>
        int 0 + int (length [5, 6 :: int]) + int (length [7 :: int]) \<le> n_ctx (hparams toy_model) \<and>
        n_vocab (hparams toy_model) * (int (length [7 :: int]) - 1) < 2147483648 \<and>
        ((1000 * length [7 :: int]) mod 2 ^ 64 \<le> initial_buf_size
         \<or> realloc_ok toy_eval_env (grown toy_eval_env ((1000 * length [7 :: int]) mod 2 ^ 64)))
        \<longrightarrow>
        (\<exists>lg2 mpt2 m2 b2.
           bloom_eval toy_eval_env (m1, initial_buf_size) (0 + length [5, 6 :: int]) [7] 1000
             = Returns (EvalTrue lg2 mpt2 (m2, b2)) \<and>
           (\<forall>il < nat (n_layer (hparams toy_model)). \<forall>q < nat (n_ctx (hparams toy_model)).
              \<forall>c < nat (n_embd (hparams toy_model)).
                if q < 0
                then memory_k m2 ! cell (hparams toy_model) il q c
                       = memory_k toy_model ! cell (hparams toy_model) il q c \<and>
                     memory_v m2 ! cell (hparams toy_model) il q c
                       = memory_v toy_model ! cell (hparams toy_model) il q c
                else if q < 0 + length [5, 6 :: int]
                then kv_at toy_eval_env toy_model 0 [5, 6] 1 il (q - 0) c
                       = Some (memory_k m2 ! cell (hparams toy_model) il q c) \<and>
                     kv_at toy_eval_env toy_model 0 [5, 6] 2 il (q - 0) c
                       = Some (memory_v m2 ! cell (hparams toy_model) il q c)
                else if q < 0 + length [5, 6 :: int] + length [7 :: int]
                then kv_at toy_eval_env m1 (0 + length [5, 6 :: int]) [7] 1 il
                         (q - (0 + length [5, 6 :: int])) c
                       = Some (memory_k m2 ! cell (hparams toy_model) il q c) \<and>
                     kv_at toy_eval_env m1 (0 + length [5, 6 :: int]) [7] 2 il
                         (q - (0 + length [5, 6 :: int])) c
                       = Some (memory_v m2 ! cell (hparams toy_model) il q c)
                else memory_k m2 ! cell (hparams toy_model) il q c
                       = memory_k toy_model ! cell (hparams toy_model) il q c \<and>
                     memory_v m2 ! cell (hparams toy_model) il q c
                       = memory_v toy_model ! cell (hparams toy_model) il q c))"
    by blast
  have m1: "m1 = ?m1" using c1 toy_first_call by simp
  have rng: "Suc 0 < nat (n_layer (hparams toy_model))" "0 < nat (n_ctx (hparams toy_model))"
      "Suc 0 < nat (n_ctx (hparams toy_model))" "2 < nat (n_ctx (hparams toy_model))"
      "0 < nat (n_embd (hparams toy_model))"
    by (simp_all add: hp toy_hparams_def)
  have cells: "cell (hparams toy_model) (Suc 0) 0 0 = 3" "cell (hparams toy_model) (Suc 0) (Suc 0) 0 = 4"
      "cell (hparams toy_model) (Suc 0) 2 0 = 5"
    by (simp_all add: cell_def hp toy_hparams_def)
  have k0: "kv_at toy_eval_env toy_model 0 [5, 6] 1 1 0 0 = Some 147"
    using f1 [rule_format, OF rng(1) rng(2) rng(5)] by (simp add: m1 cells)
  have k1: "kv_at toy_eval_env toy_model 0 [5, 6] 2 1 1 0 = Some 158"
    using f1 [rule_format, OF rng(1) rng(3) rng(5)] by (simp add: m1 cells)
  have "[7 :: int] \<noteq> [] \<and>
        int 0 + int (length [5, 6 :: int]) + int (length [7 :: int]) \<le> n_ctx (hparams toy_model) \<and>
        n_vocab (hparams toy_model) * (int (length [7 :: int]) - 1) < 2147483648 \<and>
        ((1000 * length [7 :: int]) mod 2 ^ 64 \<le> initial_buf_size
         \<or> realloc_ok toy_eval_env (grown toy_eval_env ((1000 * length [7 :: int]) mod 2 ^ 64)))"
    by (simp add: hp toy_hparams_def initial_buf_size_def)
  with imp obtain lg2 mpt2 m2 b2 where
    c2: "bloom_eval toy_eval_env (m1, initial_buf_size) (0 + length [5, 6 :: int]) [7] 1000
           = Returns (EvalTrue lg2 mpt2 (m2, b2))"
    and f2: "\<forall>il < nat (n_layer (hparams toy_model)). \<forall>q < nat (n_ctx (hparams toy_model)).
        \<forall>c < nat (n_embd (hparams toy_model)).
          if q < 0
          then memory_k m2 ! cell (hparams toy_model) il q c
                 = memory_k toy_model ! cell (hparams toy_model) il q c \<and>
               memory_v m2 ! cell (hparams toy_model) il q c
                 = memory_v toy_model ! cell (hparams toy_model) il q c
          else if q < 0 + length [5, 6 :: int]
          then kv_at toy_eval_env toy_model 0 [5, 6] 1 il (q - 0) c
                 = Some (memory_k m2 ! cell (hparams toy_model) il q c) \<and>
               kv_at toy_eval_env toy_model 0 [5, 6] 2 il (q - 0) c
                 = Some (memory_v m2 ! cell (hparams toy_model) il q c)
          else if q < 0 + length [5, 6 :: int] + length [7 :: int]
          then kv_at toy_eval_env m1 (0 + length [5, 6 :: int]) [7] 1 il
                   (q - (0 + length [5, 6 :: int])) c
                 = Some (memory_k m2 ! cell (hparams toy_model) il q c) \<and>
               kv_at toy_eval_env m1 (0 + length [5, 6 :: int]) [7] 2 il
                   (q - (0 + length [5, 6 :: int])) c
                 = Some (memory_v m2 ! cell (hparams toy_model) il q c)
          else memory_k m2 ! cell (hparams toy_model) il q c
                 = memory_k toy_model ! cell (hparams toy_model) il q c \<and>
               memory_v m2 ! cell (hparams toy_model) il q c
                 = memory_v toy_model ! cell (hparams toy_model) il q c"
    by blast
  have len: "0 + length [5, 6 :: int] = 2" by simp
  have m2: "m2 = ?m2" using c2 toy_second_call unfolding m1 len by simp
  have k2: "kv_at toy_eval_env ?m1 2 [7] 1 1 0 0 = Some 166"
    using f2 [rule_format, OF rng(1) rng(4) rng(5)] unfolding m1 m2 by (simp add: cells numeral_2_eq_2 [symmetric])
  show ?thesis
    using toy_first_call toy_second_call k0 k1 k2 by simp
qed

text \<open>
  The claim C2 as it is stated fails where the call leaves the context. On the small model
  (three positions, two layers) a pass over two tokens at position 2: the loop body of
  layer 0 copies the second key and value to the float after the region of layer 0, which
  is position 0 of layer 1, a position below 2; the views of layer 1 leave the tensors, and
  the pass has no result. A pass over an empty input has no result either.
\<close>

theorem cache_write_leaves_the_context:
  "(case eval_layer toy_eval_env (hparams toy_model) 2 2 0
           (tok_embed toy_eval_env [5, 6], memory_k toy_model, memory_v toy_model) of
      Returns (x, mk, mv) \<Rightarrow> mk = [0, 0, 15, 16, 0, 0] \<and> mv = [0, 0, 25, 26, 0, 0]
    | Traps \<Rightarrow> False) \<and>
   cell (hparams toy_model) 1 0 0 = 3 \<and>
   memory_k toy_model ! 3 = 0 \<and>
   bloom_eval toy_eval_env (toy_model, initial_buf_size) 2 [5, 6] 1000 = Traps \<and>
   bloom_eval toy_eval_env (toy_model, initial_buf_size) 0 [] 1000 = Traps"
  by (simp add: toy_eval_simps cell_def numeral_2_eq_2 [symmetric])

section \<open>The logits a forward pass returns\<close>

text \<open>
  C8, as amended. On a model as above, a forward pass over a non-empty input of length
  \<open>N\<close> that stays inside the context, whose logits offset \<open>n_vocab * (N - 1)\<close> is an
  \<^verbatim>\<open>int\<close> and whose scratch buffer is large enough or can be reallocated, returns
  \<^verbatim>\<open>true\<close> with exactly \<open>n_vocab\<close> logits, and they are the row for the last input
  position of the tensor the output projection computes for all input positions: logit
  \<open>j\<close> is the float at index \<open>n_vocab * (N - 1) + j\<close>. Nothing of the rows before it is
  returned.
\<close>

theorem eval_returns_last_row:
  assumes wf: "cache_wf m"
    and small: "n_embd (hparams m) * n_layer (hparams m) * n_ctx (hparams m) < 2147483648"
    and e: "0 < n_embd (hparams m)" and h: "n_head (hparams m) \<noteq> 0"
    and v: "0 \<le> n_vocab (hparams m)"
    and ne: "embd \<noteq> []"
    and C: "int p + int (length embd) \<le> n_ctx (hparams m)"
    and rng: "n_vocab (hparams m) * (int (length embd) - 1) < 2147483648"
    and ra: "(mpt * length embd) mod 2 ^ 64 \<le> b
             \<or> realloc_ok env (grown env ((mpt * length embd) mod 2 ^ 64))"
  shows "\<exists>lg mpt' w' inpL mk mv.
           bloom_eval env (m, b) p embd mpt = Returns (EvalTrue lg mpt' w') \<and>
           length lg = nat (n_vocab (hparams m)) \<and>
           eval_layers env (hparams m) p (length embd) (nat (n_layer (hparams m)))
             (tok_embed env embd, memory_k m, memory_v m) = Returns (inpL, mk, mv) \<and>
           (\<forall>j < nat (n_vocab (hparams m)).
              lg ! j = lm_head env (length embd) inpL
                         (nat (n_vocab (hparams m)) * (length embd - 1) + j))"
proof -
  obtain lg mpt' m' b' where
    ev: "bloom_eval env (m, b) p embd mpt = Returns (EvalTrue lg mpt' (m', b'))"
    using bloom_eval_returns [OF wf small e h v ne C rng ra] by blast
  obtain x mk mv where
    ret: "eval_layers env (hparams m) p (length embd) (nat (n_layer (hparams m)))
            (tok_embed env embd, memory_k m, memory_v m) = Returns (x, mk, mv)"
    and lg: "lg = map (\<lambda>j. lm_head env (length embd) x
                             (nat (n_vocab (hparams m)) * (length embd - 1) + j))
                      [0..<nat (n_vocab (hparams m))]"
    using ev by (rule bloom_eval_EvalTrue)
  have len: "length lg = nat (n_vocab (hparams m))" by (simp add: lg)
  have row: "\<forall>j < nat (n_vocab (hparams m)).
      lg ! j = lm_head env (length embd) x (nat (n_vocab (hparams m)) * (length embd - 1) + j)"
    unfolding lg by (intro allI impI) (simp only: nth_map_upt add_0 minus_nat.diff_0)
  show ?thesis
    apply (rule exI [where x = lg], rule exI [where x = mpt'], rule exI [where x = "(m', b')"])
    apply (rule exI [where x = x], rule exI [where x = mk], rule exI [where x = mv])
    apply (intro conjI)
       apply (rule ev)
      apply (rule len)
     apply (rule ret)
    apply (rule row)
    done
qed

theorem eval_returns_last_row_witness:
  "bloom_eval toy_eval_env (toy_model, initial_buf_size) 0 [5, 6] 0 =
     Returns (EvalTrue [334, 335] 1000
       (toy_model\<lparr>memory_k := [15, 16, 0, 147, 148, 0], memory_v := [25, 26, 0, 157, 158, 0]\<rparr>,
        initial_buf_size)) \<and>
   length [334, 335 :: int] = nat (n_vocab (hparams toy_model)) \<and>
   (\<exists>inpL mk mv.
      eval_layers toy_eval_env (hparams toy_model) 0 (length [5, 6 :: int])
        (nat (n_layer (hparams toy_model)))
        (tok_embed toy_eval_env [5, 6], memory_k toy_model, memory_v toy_model)
          = Returns (inpL, mk, mv) \<and>
      [334, 335] ! 1 = lm_head toy_eval_env (length [5, 6 :: int]) inpL
                         (nat (n_vocab (hparams toy_model)) * (length [5, 6 :: int] - 1) + 1))"
proof -
  have hp: "hparams toy_model = toy_hparams" by (simp add: toy_model_def)
  have pre: "n_embd (hparams toy_model) * n_layer (hparams toy_model) * n_ctx (hparams toy_model)
               < 2147483648"
      "0 < n_embd (hparams toy_model)" "n_head (hparams toy_model) \<noteq> 0"
      "0 \<le> n_vocab (hparams toy_model)" "[5, 6 :: int] \<noteq> []"
      "int 0 + int (length [5, 6 :: int]) \<le> n_ctx (hparams toy_model)"
      "n_vocab (hparams toy_model) * (int (length [5, 6 :: int]) - 1) < 2147483648"
      "(0 * length [5, 6 :: int]) mod 2 ^ 64 \<le> initial_buf_size
       \<or> realloc_ok toy_eval_env (grown toy_eval_env ((0 * length [5, 6 :: int]) mod 2 ^ 64))"
    by (simp_all add: hp toy_hparams_def)
  have v: "1 < nat (n_vocab (hparams toy_model))"
    by (simp add: hp toy_hparams_def)
  from eval_returns_last_row [OF toy_cache_wf pre]
  obtain lg mpt' w' inpL mk mv where
    ev: "bloom_eval toy_eval_env (toy_model, initial_buf_size) 0 [5, 6] 0
           = Returns (EvalTrue lg mpt' w')"
    and len: "length lg = nat (n_vocab (hparams toy_model))"
    and ret: "eval_layers toy_eval_env (hparams toy_model) 0 (length [5, 6 :: int])
                (nat (n_layer (hparams toy_model)))
                (tok_embed toy_eval_env [5, 6], memory_k toy_model, memory_v toy_model)
              = Returns (inpL, mk, mv)"
    and row: "\<forall>j < nat (n_vocab (hparams toy_model)).
                lg ! j = lm_head toy_eval_env (length [5, 6 :: int]) inpL
                  (nat (n_vocab (hparams toy_model)) * (length [5, 6 :: int] - 1) + j)"
    by blast
  have lg: "lg = [334, 335]" using ev toy_first_call by simp
  from row v have r1: "lg ! 1 = lm_head toy_eval_env (length [5, 6 :: int]) inpL
                  (nat (n_vocab (hparams toy_model)) * (length [5, 6 :: int] - 1) + 1)"
    by blast
  have "\<exists>inpL mk mv.
      eval_layers toy_eval_env (hparams toy_model) 0 (length [5, 6 :: int])
        (nat (n_layer (hparams toy_model)))
        (tok_embed toy_eval_env [5, 6], memory_k toy_model, memory_v toy_model)
          = Returns (inpL, mk, mv) \<and>
      [334, 335] ! 1 = lm_head toy_eval_env (length [5, 6 :: int]) inpL
                         (nat (n_vocab (hparams toy_model)) * (length [5, 6 :: int] - 1) + 1)"
    using ret r1 [unfolded lg] by (intro exI conjI)
  with toy_first_call len [unfolded lg] show ?thesis by (intro conjI)
qed

text \<open>
  The claim C8 as it is stated fails where the offset of line 789 is not an \<^verbatim>\<open>int\<close>. With
  \<open>n_vocab = 2^30\<close> and three input tokens, \<open>n_vocab * (N - 1)\<close> is \<open>2^31\<close>, which the
  machine's 32-bit multiplication turns into \<open>- 2^31\<close>: the copy starts before the result
  of the output projection, and the pass has no result.
\<close>

theorem logits_offset_overflow:
  "n_vocab (toy_hparams\<lparr>n_vocab := 1073741824\<rparr>) * (int (length [5, 6, 7 :: int]) - 1) = 2147483648 \<and>
   wrap32 (n_vocab (toy_hparams\<lparr>n_vocab := 1073741824\<rparr>) * (int (length [5, 6, 7 :: int]) - 1))
     = - 2147483648 \<and>
   bloom_eval toy_eval_env
     (toy_model\<lparr>hparams := toy_hparams\<lparr>n_vocab := 1073741824\<rparr>\<rparr>, initial_buf_size) 0 [5, 6, 7] 0
     = Traps"
  by (simp add: toy_eval_simps wrap32_def numeral_2_eq_2 [symmetric])
section \<open>Evaluating the small configuration\<close>

lemma replicate_two: "replicate 2 x = [x, x]"
  by (simp add: numeral_2_eq_2)

lemmas toy_gen_simps =
  bloom_run_def inference_def entry_params_def toy_gen_env_def toy_ctx_def toy_vocab_def
  inference_body_def inference_predict_def inference_feed_def inference_display_def
  sample_next_def shift_in_def c_str_def wrap32_def replicate_two inference_loop.simps

lemmas toy_chat_simps =
  bloom_chat_def chat_def chat_embd_inp_def chat_ingest.simps chat_ingest_step_def refill_def
  read_inp_def chat_decode.simps chat_sample_def chat_predict_def entry_params_def
  toy_gen_env_def toy_ctx_def toy_vocab_def sample_next_def shift_in_def c_str_def wrap32_def


section \<open>One-shot generation: batches and the seed\<close>

text \<open>
  The batch the prompt loop of \<^verbatim>\<open>inference\<close> builds from the remaining prompt tokens
  \<open>ts\<close>: it stops after the append that makes the size exceed \<open>nb\<close>, so it holds up to
  \<open>nb + 1\<close> tokens.
\<close>

lemma fill_batch_take:
  assumes "length embd \<le> nb" and "recent \<noteq> []"
  shows "\<exists>r. fill_batch nb ts embd recent = Some (embd @ take (nb + 1 - length embd) ts, r) \<and> r \<noteq> []"
  using assms
proof (induction ts arbitrary: embd recent)
  case Nil
  then show ?case by simp
next
  case (Cons t ts)
  from Cons.prems(2) obtain x xs where rec: "recent = x # xs" by (cases recent) simp_all
  have sh: "shift_in t recent = Some (xs @ [t])" by (simp add: shift_in_def rec)
  show ?case
  proof (cases "length embd = nb")
    case True
    then have "fill_batch nb (t # ts) embd recent = Some (embd @ [t], xs @ [t])"
      by (simp add: sh)
    moreover have "take (nb + 1 - length embd) (t # ts) = [t]" using True by simp
    ultimately show ?thesis by simp
  next
    case False
    with Cons.prems(1) have lt: "length embd < nb" by simp
    then have step: "fill_batch nb (t # ts) embd recent = fill_batch nb ts (embd @ [t]) (xs @ [t])"
      by (simp add: sh)
    have "length (embd @ [t]) \<le> nb" using lt by simp
    moreover have "xs @ [t] \<noteq> []" by simp
    ultimately obtain r where
      r: "fill_batch nb ts (embd @ [t]) (xs @ [t])
            = Some ((embd @ [t]) @ take (nb + 1 - length (embd @ [t])) ts, r)" and "r \<noteq> []"
      using Cons.IH [of "embd @ [t]" "xs @ [t]"] by blast
    have "nb + 1 - length embd = Suc (nb + 1 - length (embd @ [t]))" using lt by simp
    then have "take (nb + 1 - length embd) (t # ts) = t # take (nb + 1 - length (embd @ [t])) ts"
      by simp
    with step r \<open>r \<noteq> []\<close> show ?thesis by simp
  qed
qed

text \<open>
  C7 fails on the code. With a batch size of 1 and a prompt of two tokens, the one
  forward pass \<^verbatim>\<open>bloom_run\<close> makes for the prompt is on a batch of two tokens: line 919
  compares \<^verbatim>\<open>embd.size() > params.n_batch\<close> after the append.
\<close>

theorem prompt_batch_exceeds_n_batch:
  "\<exists>r c b d. bloom_run toy_eval_env toy_gen_env toy_ctx initial_buf_size 100 42 1 1 1 ''ab''
      = Returns (r, c, b, d, [Tokenize ''ab'', Eval 0 [0, 1]])"
  by (simp add: toy_gen_simps toy_eval_simps)

lemma entry_params_seed:
  "seed (entry_params env clock seed_arg n_threads_arg n_batch_arg n_predict_arg text)
     = (if seed (default_params env) < 0 then wrap32 clock else seed_arg)"
  by (simp add: entry_params_def)

text \<open>
  When the default-constructed parameters have a negative seed, the seed argument of
  \<^verbatim>\<open>bloom_run\<close> has no effect on the call.
\<close>

lemma bloom_run_ignores_seed:
  assumes "seed (default_params env) < 0"
  shows "bloom_run eenv env ctx b clock seed1 th nb np text
           = bloom_run eenv env ctx b clock seed2 th nb np text"
  using assms by (simp add: bloom_run_def entry_params_def)

text \<open>
  C1 fails on the code. Two calls of \<^verbatim>\<open>bloom_run\<close> on the same session, with the same
  seed argument 42, the same prompt and the same budget, at the clock values 100 and 101:
  the generator is seeded with the clock, and the texts copied to \<^verbatim>\<open>dst\<close> differ in the
  sampled token.
\<close>

theorem run_once_seed_is_the_clock:
  "seed (entry_params toy_gen_env 100 42 1 1 1 ''ab'') = 100 \<and>
   seed (entry_params toy_gen_env 101 42 1 1 1 ''ab'') = 101 \<and>
   (\<exists>c b tr. bloom_run toy_eval_env toy_gen_env toy_ctx initial_buf_size 100 42 1 1 1 ''ab''
      = Returns (0, c, b, [(0, ''a''), (1, ''b''), (2, ''a'')], tr)) \<and>
   (\<exists>c b tr. bloom_run toy_eval_env toy_gen_env toy_ctx initial_buf_size 101 42 1 1 1 ''ab''
      = Returns (0, c, b, [(0, ''a''), (1, ''b''), (2, ''b'')], tr))"
  by (simp add: toy_gen_simps toy_eval_simps)

section \<open>Multi-turn generation: failure of the first loop, and the refill\<close>

lemma chat_ingest_first_failure:
  assumes "s_n_past s < n_input"
    and "chat_ingest_step eenv env nb embd_inp n_past_init n_input s = Done r s'"
  shows "chat_ingest eenv env nb embd_inp n_past_init n_input s = Some (Done r s')"
  using assms by (subst chat_ingest.simps) simp

text \<open>
  C3 fails on the code. When the forward pass on the first batch of the input of a call of
  \<^verbatim>\<open>bloom_chat\<close> returns false, \<^verbatim>\<open>chat\<close> returns 1 and \<^verbatim>\<open>bloom_chat\<close>, which tests
  \<^verbatim>\<open>ret < 0\<close>, returns 0.
\<close>

theorem chat_ingest_failure_returns_zero:
  assumes "n_chars ctx \<le> length text"
    and "last_n_tokens ctx \<noteq> []"
    and "embd_inp = chat_embd_inp env (vocab ctx) (last_n_tokens ctx) (drop (n_chars ctx) text)"
    and "embd_inp \<noteq> []"
    and "bloom_eval eenv (model ctx, b) (n_past ctx)
           (take (min (nat (nb mod 2 ^ 64)) (length embd_inp)) embd_inp) (mem_per_token ctx)
         = Returns (EvalFalse w)"
  shows "\<exists>ctx' b' d tr. bloom_chat eenv env ctx b clock sd th nb np text
           = Some (Returns (0, ctx', b', d, tr))"
proof -
  let ?params = "entry_params env clock sd th nb np (drop (n_chars ctx) text)"
  let ?n_input = "n_past ctx + length embd_inp"
  let ?s0 = "\<lparr>s_rng = mt19937 env (seed ?params), s_n_past = n_past ctx, s_logits = [],
              s_embd = [], s_last_n_tokens = last_n_tokens ctx, s_i = 0,
              s_mem_per_token = mem_per_token ctx,
              s_world = (model ctx, b), s_dst = [(0, text)], s_cursor = length text,
              s_n_chars = n_chars ctx,
              s_trace = (if prompt ?params \<noteq> [] then [Tokenize (prompt ?params)] else [])\<rparr>"
  have p: "prompt ?params = drop (n_chars ctx) text" and nbp: "n_batch ?params = nb"
    by (simp_all add: entry_params_def)
  have lt: "s_n_past ?s0 < ?n_input" using assms(4) by simp
  obtain s' where
    st: "chat_ingest_step eenv env (nat (nb mod 2 ^ 64)) embd_inp (n_past ctx) ?n_input ?s0
           = Done 1 s'"
    using assms(5) by (simp add: chat_ingest_step_def Let_def)
  have "chat_ingest eenv env (nat (nb mod 2 ^ 64)) embd_inp (n_past ctx) ?n_input ?s0
          = Some (Done 1 s')"
    using lt st by (rule chat_ingest_first_failure)
  then have "chat eenv env ?params (model ctx, b) (vocab ctx) (mem_per_token ctx) (n_chars ctx)
               (n_past ctx) (last_n_tokens ctx) [(0, text)] (length text)
             = Some (Returns (1, s'))"
    using assms(2) assms(3) by (simp add: chat_def Let_def p nbp)
  then show ?thesis
    using assms(1) by (simp add: bloom_chat_def)
qed

theorem chat_ingest_failure_returns_zero_witness:
  "\<exists>ctx' b' d tr.
     bloom_chat toy_eval_env toy_gen_env (toy_ctx\<lparr>mem_per_token := 51200000001\<rparr>)
       initial_buf_size 100 42 1 8 1 ''a'' = Some (Returns (0, ctx', b', d, tr))"
proof (rule chat_ingest_failure_returns_zero [where embd_inp = "[0]" and w = "(toy_model, 56320000001)"])
  show "n_chars (toy_ctx\<lparr>mem_per_token := 51200000001\<rparr>) \<le> length ''a''"
    by (simp add: toy_ctx_def)
  show "last_n_tokens (toy_ctx\<lparr>mem_per_token := 51200000001\<rparr>) \<noteq> []"
    by (simp add: toy_ctx_def)
  show "[0] = chat_embd_inp toy_gen_env (vocab (toy_ctx\<lparr>mem_per_token := 51200000001\<rparr>))
                (last_n_tokens (toy_ctx\<lparr>mem_per_token := 51200000001\<rparr>))
                (drop (n_chars (toy_ctx\<lparr>mem_per_token := 51200000001\<rparr>)) ''a'')"
    by (simp add: chat_embd_inp_def toy_ctx_def toy_gen_env_def toy_vocab_def)
  show "[0::int] \<noteq> []" by simp
  show "bloom_eval toy_eval_env (model (toy_ctx\<lparr>mem_per_token := 51200000001\<rparr>), initial_buf_size)
          (n_past (toy_ctx\<lparr>mem_per_token := 51200000001\<rparr>))
          (take (min (nat (8 mod 2 ^ 64)) (length [0::int])) [0])
          (mem_per_token (toy_ctx\<lparr>mem_per_token := 51200000001\<rparr>))
        = Returns (EvalFalse (toy_model, 56320000001))"
    by (simp add: toy_ctx_def toy_eval_simps)
qed

text \<open>
  C9 fails on the code. The first call of \<^verbatim>\<open>bloom_chat\<close> on a session, with a text of one
  token: the input vector has one element, the forward pass is on that token at position
  0, and the refill reads the vector at index 1.
\<close>

theorem chat_refill_reads_past_the_end:
  "length (chat_embd_inp toy_gen_env (vocab toy_ctx) (last_n_tokens toy_ctx) ''a'') = 1 \<and>
   (\<exists>r c b d. bloom_chat toy_eval_env toy_gen_env toy_ctx initial_buf_size 100 42 1 8 1 ''a''
      = Some (Returns (r, c, b, d, [Tokenize ''a'', Eval 0 [0], InpRead 1])))"
  by (simp add: toy_chat_simps toy_eval_simps)
section \<open>What a chat turn tokenizes and evaluates\<close>


















section \<open>Loading a session\<close>

lemma bloom_model_load_True:
  assumes "bloom_model_load env file model0 vocab0 ctx_len = Returns (True, m, v, ev)"
  shows "length (memory_k m) = nat (n_elements_of (hparams m))"
    and "length (memory_v m) = nat (n_elements_of (hparams m))"
    and "n_ctx (hparams m) = ctx_len"
  using assms
  by (auto simp: bloom_model_load_def load_hparams_def Let_def
           split: option.splits prod.splits if_splits)

lemma wrap32_shift: "\<exists>k. wrap32 x = x - k * 4294967296"
proof -
  have "x + 2147483648 = (x + 2147483648) div 4294967296 * 4294967296
                         + (x + 2147483648) mod 4294967296"
    by simp
  then have "wrap32 x = x - (x + 2147483648) div 4294967296 * 4294967296"
    unfolding wrap32_def by linarith
  then show ?thesis by blast
qed

lemma wrap32_less: "wrap32 x < 2147483648"
proof -
  have "(x + 2147483648) mod 4294967296 < 4294967296" by simp
  then show ?thesis unfolding wrap32_def by linarith
qed

lemma n_elements_exact:
  assumes e: "0 < n_embd hp" and l: "2 \<le> n_layer hp"
    and one: "n_embd hp * n_ctx hp + 4 * n_embd hp \<le> int (nat (n_elements_of hp))"
    and off1: "0 \<le> n_embd hp * n_ctx hp"
    and lst: "n_embd hp * ((n_layer hp - 1) * n_ctx hp) + 4 * n_embd hp \<le> int (nat (n_elements_of hp))"
  shows "int (nat (n_elements_of hp)) = n_embd hp * n_layer hp * n_ctx hp"
proof -
  let ?E = "n_embd hp" and ?L = "n_layer hp" and ?C = "n_ctx hp"
  have c0: "0 \<le> ?C" using off1 e by (simp add: zero_le_mult_iff)
  obtain k2 where k2: "wrap32 (?L * ?C) = ?L * ?C - k2 * 4294967296"
    using wrap32_shift by blast
  obtain k1 where k1: "n_elements_of hp = ?E * wrap32 (?L * ?C) - k1 * 4294967296"
    unfolding n_elements_of_def using wrap32_shift by blast
  define T where "T = ?E * k2 + k1"
  define x where "x = ?E * ?L * ?C"
  define ec where "ec = ?E * ?C"
  have y: "n_elements_of hp = x - T * 4294967296"
    unfolding k1 k2 T_def x_def by (simp add: algebra_simps)
  have pos: "0 < int (nat (n_elements_of hp))" using one off1 e by linarith
  then have ny: "int (nat (n_elements_of hp)) = n_elements_of hp"
    by (cases "0 \<le> n_elements_of hp") simp_all
  have ylt: "n_elements_of hp < 2147483648"
    unfolding n_elements_of_def by (rule wrap32_less)
  have x0: "0 \<le> x" unfolding x_def using e l c0 by simp
  have lst': "x - ec + 4 * ?E \<le> n_elements_of hp"
    using lst unfolding ny x_def ec_def by (simp add: algebra_simps)
  have one': "ec + 4 * ?E \<le> n_elements_of hp"
    using one unfolding ny ec_def by simp
  have "T \<le> 0" using y ylt lst' one' e by linarith
  moreover have "0 \<le> T" using y ylt x0 by linarith
  ultimately have "T = 0" by simp
  with y show ?thesis unfolding ny x_def by simp
qed

text \<open>
  A forward pass over four tokens at position 0 on a model whose cache tensors have the
  size the loader gives them: when it returns, the first four positions of every layer
  hold the keys and values the layer computed. With one layer the writes start at offset
  0 whatever the context length is; with more layers the views of layer 1 and of the last
  layer lie inside the tensors only if the element count did not wrap around.
\<close>

lemma warm_up_one_layer:
  assumes ret: "eval_layers env hp 0 4 (Suc 0) (x0, mk0, mv0) = Returns (x, mk, mv)"
    and q: "q < 4" and c: "c < nat (n_embd hp)"
  shows "mk ! (nat (n_embd hp) * q + c) = view_2d (qkv env 0 x0 4) (nat (n_embd hp)) 1 (q * nat (n_embd hp) + c)"
    and "mv ! (nat (n_embd hp) * q + c) = view_2d (qkv env 0 x0 4) (nat (n_embd hp)) 2 (q * nat (n_embd hp) + c)"
proof -
  let ?E = "nat (n_embd hp)"
  have e: "0 < n_embd hp" using c by simp
  from ret have b: "eval_layer env hp 0 4 0 (x0, mk0, mv0) = Returns (x, mk, mv)" by simp
  have four: "(1::nat) \<le> 4" by simp
  note r = eval_layer_Returns(4) [OF b four]
  have cnt: "nat (int 4 * n_embd hp) = 4 * ?E" using e by (simp add: nat_mult_distrib)
  have off: "nat (n_embd hp * (int 0 * n_ctx hp + int 0)) = 0" by simp
  have mk: "mk = cpy_to_view (view_2d (qkv env 0 x0 4) ?E 1) mk0 (4 * ?E) 0"
    and mv: "mv = cpy_to_view (view_2d (qkv env 0 x0 4) ?E 2) mv0 (4 * ?E) 0"
    using r unfolding cnt off by simp_all
  have "int 4 * n_embd hp \<le> int (length mk0)" and "int 4 * n_embd hp \<le> int (length mv0)"
    using r by (simp_all add: view_ok_def)
  then have len: "4 * ?E \<le> length mk0" "4 * ?E \<le> length mv0" using e by linarith+
  have "q + 1 \<le> 4" using q by simp
  then have "?E * (q + 1) \<le> ?E * 4" by (rule mult_le_mono2)
  moreover have "?E * (q + 1) = ?E * q + ?E" by (simp add: algebra_simps)
  ultimately have lt: "?E * q + c < 4 * ?E" using c by linarith
  have comm: "?E * q + c = q * ?E + c" by simp
  show "mk ! (?E * q + c) = view_2d (qkv env 0 x0 4) ?E 1 (q * ?E + c)"
    unfolding mk using lt len(1) by (simp add: cpy_to_view_nth comm)
  show "mv ! (?E * q + c) = view_2d (qkv env 0 x0 4) ?E 2 (q * ?E + c)"
    unfolding mv using lt len(2) by (simp add: cpy_to_view_nth comm)
qed

lemma warm_up_cache_wf:
  assumes lenk: "length (memory_k m) = nat (n_elements_of (hparams m))"
    and lenv: "length (memory_v m) = nat (n_elements_of (hparams m))"
    and ret: "eval_layers env (hparams m) 0 4 (nat (n_layer (hparams m)))
                (x0, memory_k m, mv0) = Returns (x, mk, mv)"
    and l: "2 \<le> n_layer (hparams m)"
    and e: "0 < n_embd (hparams m)"
  shows "cache_wf m" and "4 \<le> n_ctx (hparams m)"
proof -
  let ?hp = "hparams m"
  let ?L = "nat (n_layer ?hp)"
  have four: "(1::nat) \<le> 4" by simp
  have l1: "1 < ?L" and ll: "?L - 1 < ?L" using l by simp_all
  have il: "int (?L - 1) = n_layer ?hp - 1" using l by simp
  from eval_layers_view_ok [OF ret four l1]
  have v1: "view_ok (n_embd ?hp * (int 1 * n_ctx ?hp + int 0)) (int 4 * n_embd ?hp) (memory_k m)" .
  from eval_layers_view_ok [OF ret four ll]
  have vl: "view_ok (n_embd ?hp * (int (?L - 1) * n_ctx ?hp + int 0)) (int 4 * n_embd ?hp)
              (memory_k m)" .
  have a: "0 \<le> n_embd ?hp * n_ctx ?hp"
    and b: "n_embd ?hp * n_ctx ?hp + 4 * n_embd ?hp \<le> int (nat (n_elements_of ?hp))"
    using v1 by (simp_all add: view_ok_def lenk)
  have c: "n_embd ?hp * ((n_layer ?hp - 1) * n_ctx ?hp) + 4 * n_embd ?hp
             \<le> int (nat (n_elements_of ?hp))"
    using vl unfolding il by (simp add: view_ok_def lenk)
  have ex: "int (nat (n_elements_of ?hp)) = n_embd ?hp * n_layer ?hp * n_ctx ?hp"
    using e l b a c by (rule n_elements_exact)
  then show wf: "cache_wf m" by (simp add: cache_wf_def lenk lenv)
  have len: "int (length (memory_k m)) = n_embd ?hp * int ?L * n_ctx ?hp"
    using ex l by (simp add: lenk)
  have "0 < ?L" using l by simp
  with vl len e have "int 0 + int 4 \<le> n_ctx ?hp"
    by (intro last_layer_bound [where L = ?L and mem = "memory_k m" and e = "n_embd ?hp"])
  then show "4 \<le> n_ctx ?hp" by simp
qed

lemma warm_up_cells:
  assumes lenk: "length (memory_k m) = nat (n_elements_of (hparams m))"
    and lenv: "length (memory_v m) = nat (n_elements_of (hparams m))"
    and ev: "bloom_eval env (m, b) 0 [0, 1, 2, 3] mpt = Returns (EvalTrue lg mpt' (m', b'))"
    and il: "il < nat (n_layer (hparams m))"
    and q: "q < 4"
    and c: "c < nat (n_embd (hparams m))"
  shows "kv_at env m 0 [0, 1, 2, 3] 1 il q c = Some (memory_k m' ! cell (hparams m) il q c) \<and>
         kv_at env m 0 [0, 1, 2, 3] 2 il q c = Some (memory_v m' ! cell (hparams m) il q c)"
proof -
  let ?hp = "hparams m"
  let ?L = "nat (n_layer ?hp)"
  let ?embd = "[0, 1, 2, 3] :: int list"
  have n: "length ?embd = 4" by simp
  obtain x mk mv where
    ret: "eval_layers env ?hp 0 (length ?embd) ?L (tok_embed env ?embd, memory_k m, memory_v m)
            = Returns (x, mk, mv)"
    and m': "m' = m\<lparr>memory_k := mk, memory_v := mv\<rparr>"
    using ev by (rule bloom_eval_EvalTrue)
  note ret4 = ret [unfolded n]
  have e: "0 < n_embd ?hp" using c by simp
  show ?thesis
  proof (cases "?L = Suc 0")
    case True
    then have il0: "il = 0" using il by simp
    note one = warm_up_one_layer [OF ret4 [unfolded True] q c]
    have cell0: "cell ?hp 0 q c = nat (n_embd ?hp) * q + c" by (simp add: cell_def)
    have kv: "kv_at env m 0 ?embd part 0 q c
                = Some (view_2d (qkv env 0 (tok_embed env ?embd) 4) (nat (n_embd ?hp)) part
                          (q * nat (n_embd ?hp) + c))" for part
      unfolding kv_at_def n by simp
    show ?thesis
      unfolding il0 cell0 kv using one by (simp add: m')
  next
    case False
    with il have l: "2 \<le> n_layer ?hp" by linarith
    note wf = warm_up_cache_wf [OF lenk lenv ret4 l e]
    have q': "q < nat (n_ctx ?hp)" using q wf(2) by linarith
    from single_call(3) [OF wf(1) ev il q' c] q show ?thesis by simp
  qed
qed

lemma bloom_load_Some:
  assumes "bloom_load lenv eenv env file ctx_len b = Returns (Some ctx, b', ev, tr)"
  obtains m v lg mpt m' where
    "bloom_model_load lenv file fresh_model empty_vocab ctx_len = Returns (True, m, v, ev)"
    and "bloom_eval eenv (m, b) 0 [0, 1, 2, 3] 0 = Returns (EvalTrue lg mpt (m', b'))"
    and "ctx = new_ChatContext\<lparr>model := m', vocab := v, mem_per_token := mpt,
                 last_n_tokens := replicate (nat (repeat_last_n (default_params env))) 0\<rparr>"
    and "tr = [Eval 0 [0, 1, 2, 3]]"
  using assms
  by (auto simp: bloom_load_def split: outcome.splits prod.splits if_splits eval_result.splits)

lemma replicate_eight: "replicate 8 x = [x, x, x, x, x, x, x, x]"
  by (simp add: eval_nat_numeral)

lemma toy_header:
  "fin_read (fin_open toy_file) 4 (garbage toy_load_env)
     = (\<lparr>bytes = toy_file, pos = 4, failbit = False, eofbit = False\<rparr>, [0x6c, 0x6d, 0x67, 0x67])"
  "load_hparams \<lparr>bytes = toy_file, pos = 4, failbit = False, eofbit = False\<rparr>
       (hparams (fresh_model :: int bloom_model)) 4
     = (\<lparr>bytes = toy_file, pos = 28, failbit = False, eofbit = False\<rparr>, toy_hparams\<lparr>n_ctx := 4\<rparr>)"
  by (simp_all add: fin_read_def fin_open_def toy_file_def load_hparams_def read_i32_def
        dec_i32_def le32_def wrap32_def toy_hparams_def fresh_model_def default_hparams_def)

lemma toy_model_load:
  "\<exists>v ev. bloom_model_load toy_load_env (Some toy_file) fresh_model empty_vocab 4
            = Returns (True, toy_loaded, v, ev)"
proof -
  let ?hp = "toy_hparams\<lparr>n_ctx := 4\<rparr>"
  have a4: "n_ff_of (n_embd ?hp) (n_mult ?hp) = Some 4"
    by (simp add: n_ff_of_def toy_hparams_def wrap32_def cdiv_def)
  obtain fin3 word vocab1 ev2 where
    a5: "fold (load_vocab_step (garbage toy_load_env)) [0..<nat (n_vocab ?hp)]
           (\<lparr>bytes = toy_file, pos = 28, failbit = False, eofbit = False\<rparr>, [], empty_vocab,
            [FinRead 4] @ replicate 6 (FinRead 4)) = (fin3, word, vocab1, ev2)"
    using prod_cases4 by blast
  have a6: "f16 ?hp \<in> {0, 1, 2, 3}" by (simp add: toy_hparams_def)
  have a7: "ggml_init toy_load_env (ctx_size_of toy_load_env ?hp 4)" by (simp add: toy_load_env_def)
  have a8: "0 \<le> n_layer ?hp" by (simp add: toy_hparams_def)
  have m: "(fresh_model :: int bloom_model)\<lparr>hparams := ?hp,
              arena := Some (ctx_size_of toy_load_env ?hp 4),
              memory_k := replicate (nat (n_elements_of ?hp)) (arena_fill toy_load_env),
              memory_v := replicate (nat (n_elements_of ?hp)) (arena_fill toy_load_env)\<rparr> = toy_loaded"
    by (simp add: fresh_model_def toy_loaded_def toy_load_env_def n_elements_of_def wrap32_def
                  toy_hparams_def replicate_eight)
  show ?thesis
    unfolding bloom_model_load_past_header [OF toy_header(1) magic_bytes toy_header(2) a4 a5 a6 a7 a8] m
    by (simp add: toy_load_env_def)
qed

lemma toy_warm_up:
  "bloom_eval toy_eval_env (toy_loaded, initial_buf_size) 0 [0, 1, 2, 3] 0 =
     Returns (EvalTrue [685, 686] 1000
       (toy_loaded\<lparr>memory_k := [10, 11, 12, 13, 157, 158, 159, 160],
                    memory_v := [20, 21, 22, 23, 167, 168, 169, 170]\<rparr>,
        initial_buf_size))"
  by (simp add: toy_eval_simps toy_loaded_def numeral_2_eq_2 [symmetric])

lemma toy_bloom_load:
  "\<exists>v ev. bloom_load toy_load_env toy_eval_env toy_gen_env (Some toy_file) 4 initial_buf_size =
     Returns (Some \<lparr>model = toy_loaded\<lparr>memory_k := [10, 11, 12, 13, 157, 158, 159, 160],
                                        memory_v := [20, 21, 22, 23, 167, 168, 169, 170]\<rparr>,
                    vocab = v, mem_per_token = 1000, n_chars = 0, n_past = 0,
                    last_n_tokens = [0, 0]\<rparr>,
              initial_buf_size, ev, [Eval 0 [0, 1, 2, 3]])"
proof -
  obtain v ev where
    ld: "bloom_model_load toy_load_env (Some toy_file) fresh_model empty_vocab 4
           = Returns (True, toy_loaded, v, ev)"
    using toy_model_load by blast
  have "bloom_load toy_load_env toy_eval_env toy_gen_env (Some toy_file) 4 initial_buf_size =
     Returns (Some \<lparr>model = toy_loaded\<lparr>memory_k := [10, 11, 12, 13, 157, 158, 159, 160],
                                        memory_v := [20, 21, 22, 23, 167, 168, 169, 170]\<rparr>,
                    vocab = v, mem_per_token = 1000, n_chars = 0, n_past = 0,
                    last_n_tokens = [0, 0]\<rparr>,
              initial_buf_size, ev, [Eval 0 [0, 1, 2, 3]])"
    by (simp add: bloom_load_def ld toy_warm_up new_ChatContext_def toy_gen_env_def replicate_two)
  then show ?thesis by blast
qed

text \<open>
  C10. A call of \<^verbatim>\<open>bloom_load\<close> that returns a session has made one forward pass, over
  the tokens 0, 1, 2, 3 at position 0 of the model the loader returned; the session's
  per-token estimate is the memory that pass used divided by its four tokens, the first
  four positions of every layer of the session's cache hold the keys and values the layer
  computed in that pass, and the session's cache position is 0, its character count is 0
  and its recent tokens are \<^verbatim>\<open>repeat_last_n\<close> zeros.
\<close>

theorem load_session_warm_up:
  assumes "bloom_load lenv eenv env file ctx_len b = Returns (Some ctx, b', ev, tr)"
  shows "tr = [Eval 0 [0, 1, 2, 3]] \<and>
         n_past ctx = 0 \<and> n_chars ctx = 0 \<and>
         last_n_tokens ctx = replicate (nat (repeat_last_n (default_params env))) 0 \<and>
         mem_per_token ctx = used_mem eenv 4 div 4 \<and>
         (\<exists>m lg. bloom_model_load lenv file fresh_model empty_vocab ctx_len
                    = Returns (True, m, vocab ctx, ev) \<and>
                  bloom_eval eenv (m, b) 0 [0, 1, 2, 3] 0
                    = Returns (EvalTrue lg (mem_per_token ctx) (model ctx, b')) \<and>
                  (\<forall>il < nat (n_layer (hparams m)). \<forall>q < 4. \<forall>c < nat (n_embd (hparams m)).
                     kv_at eenv m 0 [0, 1, 2, 3] 1 il q c
                       = Some (memory_k (model ctx) ! cell (hparams m) il q c) \<and>
                     kv_at eenv m 0 [0, 1, 2, 3] 2 il q c
                       = Some (memory_v (model ctx) ! cell (hparams m) il q c)))"
proof -
  from assms obtain m v lg mpt m' where
    ld: "bloom_model_load lenv file fresh_model empty_vocab ctx_len = Returns (True, m, v, ev)"
    and ev: "bloom_eval eenv (m, b) 0 [0, 1, 2, 3] 0 = Returns (EvalTrue lg mpt (m', b'))"
    and ctx: "ctx = new_ChatContext\<lparr>model := m', vocab := v, mem_per_token := mpt,
                 last_n_tokens := replicate (nat (repeat_last_n (default_params env))) 0\<rparr>"
    and tr: "tr = [Eval 0 [0, 1, 2, 3]]"
    by (rule bloom_load_Some)
  have sel: "model ctx = m'" "vocab ctx = v" "mem_per_token ctx = mpt" "n_past ctx = 0"
      "n_chars ctx = 0"
      "last_n_tokens ctx = replicate (nat (repeat_last_n (default_params env))) 0"
    by (simp_all add: ctx new_ChatContext_def)
  have "mpt = (if (0::nat) = 0 then used_mem eenv (length [0, 1, 2, 3 :: int]) div length [0, 1, 2, 3 :: int]
               else 0)"
    using ev by (rule bloom_eval_EvalTrue)
  moreover have "length [0, 1, 2, 3 :: int] = 4" by simp
  ultimately have mpt: "mpt = used_mem eenv 4 div 4" by (simp only: if_True refl)
  note len = bloom_model_load_True(1,2) [OF ld]
  have cells: "\<forall>il < nat (n_layer (hparams m)). \<forall>q < 4. \<forall>c < nat (n_embd (hparams m)).
      kv_at eenv m 0 [0, 1, 2, 3] 1 il q c = Some (memory_k m' ! cell (hparams m) il q c) \<and>
      kv_at eenv m 0 [0, 1, 2, 3] 2 il q c = Some (memory_v m' ! cell (hparams m) il q c)"
    using warm_up_cells [OF len ev] by blast
  have "\<exists>m lg. bloom_model_load lenv file fresh_model empty_vocab ctx_len
                    = Returns (True, m, vocab ctx, ev) \<and>
                  bloom_eval eenv (m, b) 0 [0, 1, 2, 3] 0
                    = Returns (EvalTrue lg (mem_per_token ctx) (model ctx, b')) \<and>
                  (\<forall>il < nat (n_layer (hparams m)). \<forall>q < 4. \<forall>c < nat (n_embd (hparams m)).
                     kv_at eenv m 0 [0, 1, 2, 3] 1 il q c
                       = Some (memory_k (model ctx) ! cell (hparams m) il q c) \<and>
                     kv_at eenv m 0 [0, 1, 2, 3] 2 il q c
                       = Some (memory_v (model ctx) ! cell (hparams m) il q c))"
    unfolding sel
    apply (rule exI [where x = m], rule exI [where x = lg])
    apply (intro conjI)
      apply (rule ld)
     apply (rule ev)
    apply (rule cells)
    done
  with tr sel(3-6) mpt show ?thesis by simp
qed

theorem load_session_warm_up_witness:
  "(\<exists>v ev. bloom_load toy_load_env toy_eval_env toy_gen_env (Some toy_file) 4 initial_buf_size =
      Returns (Some \<lparr>model = toy_loaded\<lparr>memory_k := [10, 11, 12, 13, 157, 158, 159, 160],
                                         memory_v := [20, 21, 22, 23, 167, 168, 169, 170]\<rparr>,
                     vocab = v, mem_per_token = 1000, n_chars = 0, n_past = 0,
                     last_n_tokens = [0, 0]\<rparr>,
               initial_buf_size, ev, [Eval 0 [0, 1, 2, 3]])) \<and>
   used_mem toy_eval_env 4 div 4 = 1000 \<and>
   kv_at toy_eval_env toy_loaded 0 [0, 1, 2, 3] 1 1 3 0 = Some 160 \<and>
   kv_at toy_eval_env toy_loaded 0 [0, 1, 2, 3] 2 0 2 0 = Some 22"
proof -
  let ?m' = "toy_loaded\<lparr>memory_k := [10, 11, 12, 13, 157, 158, 159, 160],
                        memory_v := [20, 21, 22, 23, 167, 168, 169, 170]\<rparr>"
  obtain v ev where
    bl: "bloom_load toy_load_env toy_eval_env toy_gen_env (Some toy_file) 4 initial_buf_size =
      Returns (Some \<lparr>model = ?m', vocab = v, mem_per_token = 1000, n_chars = 0, n_past = 0,
                     last_n_tokens = [0, 0]\<rparr>,
               initial_buf_size, ev, [Eval 0 [0, 1, 2, 3]])"
    using toy_bloom_load by blast
  note th = load_session_warm_up [OF bl]
  then have um: "used_mem toy_eval_env 4 div 4 = 1000" by simp
  from th obtain m lg where
    ld: "bloom_model_load toy_load_env (Some toy_file) fresh_model empty_vocab 4
           = Returns (True, m, v, ev)"
    and cells: "\<forall>il < nat (n_layer (hparams m)). \<forall>q < 4. \<forall>c < nat (n_embd (hparams m)).
        kv_at toy_eval_env m 0 [0, 1, 2, 3] 1 il q c = Some (memory_k ?m' ! cell (hparams m) il q c) \<and>
        kv_at toy_eval_env m 0 [0, 1, 2, 3] 2 il q c = Some (memory_v ?m' ! cell (hparams m) il q c)"
    by auto
  have m: "m = toy_loaded" using ld toy_model_load by auto
  have hp: "hparams toy_loaded = toy_hparams\<lparr>n_ctx := 4\<rparr>" by (simp add: toy_loaded_def)
  have rng: "Suc 0 < nat (n_layer (hparams toy_loaded))" "0 < nat (n_layer (hparams toy_loaded))"
      "0 < nat (n_embd (hparams toy_loaded))" "(3::nat) < 4" "(2::nat) < 4"
    by (simp_all add: hp toy_hparams_def)
  have cl: "cell (hparams toy_loaded) (Suc 0) 3 0 = 7" "cell (hparams toy_loaded) 0 2 0 = 2"
    by (simp_all add: cell_def hp toy_hparams_def)
  have k1: "kv_at toy_eval_env toy_loaded 0 [0, 1, 2, 3] 1 1 3 0 = Some 160"
    using cells [unfolded m, rule_format, OF rng(1) rng(4) rng(3)] by (simp add: cl)
  have k2: "kv_at toy_eval_env toy_loaded 0 [0, 1, 2, 3] 2 0 2 0 = Some 22"
    using cells [unfolded m, rule_format, OF rng(2) rng(5) rng(3)] by (simp add: cl)
  from toy_bloom_load um k1 k2 show ?thesis by (intro conjI)
qed
end
